theory Spec2Isabelle
  imports Complex_Main
begin

chapter \<open>The server method helpers of the time-tracking application\<close>

text \<open>
  A shallow embedding of \<^verbatim>\<open>imports/utils/server_method_helpers.js\<close>: the project scope
  resolver, the four report query builders, the working-time mapper, the authentication
  mixin and the string similarity scorer. The first part gives the definitions, each one
  next to the JavaScript it is translated from; the second part states and proves the
  properties.

  Conventions. A JavaScript string is a \<^typ>\<open>string\<close>, a list of 8-bit characters read as
  UTF-16 code units below 256. A value that may be \<^verbatim>\<open>undefined\<close> (a missing argument, a
  missing field of a document) has an option type, and \<^term>\<open>None\<close> is \<^verbatim>\<open>undefined\<close>;
  \<^term>\<open>None\<close> is also \<^verbatim>\<open>null\<close> where the code only tests the value or compares it
  (\<^verbatim>\<open>Meteor.userId()\<close>, \<^verbatim>\<open>context.userId\<close>). A value is \<^emph>\<open>truthy\<close> as in
  JavaScript: a string when it is not empty, a number when it is neither 0 nor NaN.
  Collections of the document store are lists of records in
  their natural order, and a \<^verbatim>\<open>find\<close> is a \<^term>\<open>filter\<close> over that list.
\<close>

section \<open>Definitions: string similarity\<close>

subsection \<open>\<^verbatim>\<open>editDistance\<close>\<close>

text \<open>
  \<^verbatim>\<open>String.prototype.toLowerCase\<close> on the code units modelled here: the capital letters
  (65 to 90, and the accented ones 192 to 214 and 216 to 222) move up by 32 to their small
  letters, every other unit stays.
\<close>

definition lower_char :: "char \<Rightarrow> char" where
  "lower_char c =
     (let n = (of_char c :: nat)
      in if (65 \<le> n \<and> n \<le> 90) \<or> (192 \<le> n \<and> n \<le> 214) \<or> (216 \<le> n \<and> n \<le> 222)
         then char_of (n + 32) else c)"

definition toLowerCase :: "string \<Rightarrow> string" where
  "toLowerCase s = map lower_char s"

text \<open>
  The array \<^verbatim>\<open>costs\<close> starts empty. An assignment \<^verbatim>\<open>costs[j] = v\<close> overwrites the
  entry when \<open>j\<close> is inside the array and appends when \<open>j\<close> is its length, which are the only
  two situations in this function (the first row is written left to right, every later write
  is inside).
\<close>

definition array_set :: "nat list \<Rightarrow> nat \<Rightarrow> nat \<Rightarrow> nat list" where
  "array_set xs j v = (if j < length xs then xs[j := v] else xs @ [v])"

text \<open>
  The inner loop \<^verbatim>\<open>for (let j = 0; j <= s2.length; j += 1)\<close>, from counter \<open>j\<close> on, with
  the loop state \<^verbatim>\<open>costs\<close> and \<^verbatim>\<open>lastValue\<close>:
  \<^verbatim>\<open>
      if (i === 0) { costs[j] = j } else if (j > 0) {
        let newValue = costs[j - 1]
        if (s1.charAt(i - 1) !== s2.charAt(j - 1)) {
          newValue = Math.min(Math.min(newValue, lastValue), costs[j]) + 1
        }
        costs[j - 1] = lastValue
        lastValue = newValue
      }
  \<close>
\<close>

function inner_loop ::
  "string \<Rightarrow> string \<Rightarrow> nat \<Rightarrow> nat \<Rightarrow> nat list \<Rightarrow> nat \<Rightarrow> nat list \<times> nat" where
  "inner_loop s1 s2 i j costs lastValue =
     (if j \<le> length s2 then
        (if i = 0 then inner_loop s1 s2 i (Suc j) (array_set costs j j) lastValue
         else if j > 0 then
           (let newValue = costs ! (j - 1);
                newValue' = (if s1 ! (i - 1) \<noteq> s2 ! (j - 1)
                             then min (min newValue lastValue) (costs ! j) + 1
                             else newValue)
            in inner_loop s1 s2 i (Suc j) (costs[j - 1 := lastValue]) newValue')
         else inner_loop s1 s2 i (Suc j) costs lastValue)
      else (costs, lastValue))"
  by pat_completeness auto
termination
  by (relation "measure (\<lambda>(s1, s2, i, j, costs, lastValue). Suc (length s2) - j)") auto

text \<open>
  The outer loop \<^verbatim>\<open>for (let i = 0; i <= s1.length; i += 1)\<close>: each round sets
  \<^verbatim>\<open>lastValue = i\<close>, runs the inner loop and, when \<^verbatim>\<open>i > 0\<close>, stores
  \<^verbatim>\<open>costs[s2.length] = lastValue\<close>.
\<close>

function outer_loop :: "string \<Rightarrow> string \<Rightarrow> nat \<Rightarrow> nat list \<Rightarrow> nat list" where
  "outer_loop s1 s2 i costs =
     (if i \<le> length s1 then
        (case inner_loop s1 s2 i 0 costs i of (costs', lastValue) \<Rightarrow>
           outer_loop s1 s2 (Suc i)
             (if i > 0 then array_set costs' (length s2) lastValue else costs'))
      else costs)"
  by pat_completeness auto
termination
  by (relation "measure (\<lambda>(s1, s2, i, costs). Suc (length s1) - i)") auto

definition editDistance :: "string \<Rightarrow> string \<Rightarrow> nat" where
  "editDistance string1 string2 =
     (let s1 = toLowerCase string1; s2 = toLowerCase string2
      in outer_loop s1 s2 0 [] ! length s2)"

declare inner_loop.simps [simp del] outer_loop.simps [simp del]

subsection \<open>\<^verbatim>\<open>calculateSimilarity\<close>\<close>

text \<open>
  The arguments may be absent. \<^verbatim>\<open>if (s1 && s2)\<close> holds when both are present and not
  empty. The result is a JavaScript number; the quotient of the two integers is kept as the
  exact rational number (JavaScript returns the double nearest to it).
\<close>

definition calculateSimilarity :: "string option \<Rightarrow> string option \<Rightarrow> rat" where
  "calculateSimilarity s1 s2 =
     (case (s1, s2) of
        (Some a, Some b) \<Rightarrow>
          (if a \<noteq> [] \<and> b \<noteq> [] then
             (let longer = (if length a < length b then b else a);
                  shorter = (if length a < length b then a else b);
                  longerLength = length longer
              in if longerLength = 0 then 1
                 else (of_nat longerLength - of_nat (editDistance longer shorter))
                      / of_nat longerLength)
           else 0)
      | _ \<Rightarrow> 0)"

subsection \<open>The Levenshtein distance\<close>

text \<open>
  One single-character edit turns a string into another: a character is inserted, deleted
  or replaced, at the front or further to the right.
\<close>

inductive single_edit :: "'a list \<Rightarrow> 'a list \<Rightarrow> bool" where
  insert_char: "single_edit xs (c # xs)"
| delete_char: "single_edit (c # xs) xs"
| substitute_char: "single_edit (c # xs) (d # xs)"
| further_right: "single_edit xs ys \<Longrightarrow> single_edit (c # xs) (c # ys)"

text \<open>
  The Levenshtein distance is the least number of single-character edits that turn the first
  string into the second.
\<close>

definition levenshtein :: "'a list \<Rightarrow> 'a list \<Rightarrow> nat" where
  "levenshtein xs ys = (LEAST n. (single_edit ^^ n) xs ys)"

text \<open>
  Two auxiliary descriptions of the same number, used in the proofs: the cost of an alignment
  of the two strings read from the left, and the usual recursion.
\<close>

inductive edit_cost :: "'a list \<Rightarrow> 'a list \<Rightarrow> nat \<Rightarrow> bool" where
  finished: "edit_cost [] [] 0"
| deletion: "edit_cost xs ys n \<Longrightarrow> edit_cost (x # xs) ys (Suc n)"
| insertion: "edit_cost xs ys n \<Longrightarrow> edit_cost xs (y # ys) (Suc n)"
| substitution: "edit_cost xs ys n \<Longrightarrow> edit_cost (x # xs) (y # ys) (Suc n)"
| keep: "edit_cost xs ys n \<Longrightarrow> edit_cost (x # xs) (x # ys) n"

fun lev :: "'a list \<Rightarrow> 'a list \<Rightarrow> nat" where
  "lev [] ys = length ys"
| "lev (x # xs) [] = Suc (length xs)"
| "lev (x # xs) (y # ys) =
     min (min (Suc (lev xs (y # ys))) (Suc (lev (x # xs) ys)))
         (lev xs ys + (if x = y then 0 else 1))"

text \<open>The distance between the prefixes of length \<open>i\<close> and \<open>j\<close>: entry \<open>(i, j)\<close> of the table.\<close>

definition prefix_dist :: "string \<Rightarrow> string \<Rightarrow> nat \<Rightarrow> nat \<Rightarrow> nat" where
  "prefix_dist s1 s2 i j = lev (take i s1) (take j s2)"

section \<open>Definitions: JavaScript values\<close>

text \<open>
  A selector argument (\<^verbatim>\<open>projectId\<close>, \<^verbatim>\<open>customer\<close>, \<^verbatim>\<open>userId\<close>) is one id or an array of
  ids. \<^verbatim>\<open>x.includes('all')\<close> is \<^verbatim>\<open>String.prototype.includes\<close> on a string, which looks for a
  substring, and \<^verbatim>\<open>Array.prototype.includes\<close> on an array, which looks for an element.
\<close>

datatype selector = One string | Many "string list"

fun string_includes :: "string \<Rightarrow> string \<Rightarrow> bool" where
  "string_includes [] x = (x = [])"
| "string_includes (c # cs) x = (take (length x) (c # cs) = x \<or> string_includes cs x)"

definition js_includes :: "selector \<Rightarrow> string \<Rightarrow> bool" where
  "js_includes sel x = (case sel of One s \<Rightarrow> string_includes s x | Many xs \<Rightarrow> x \<in> set xs)"

text \<open>
  Numbers: \<^verbatim>\<open>limit\<close> and \<^verbatim>\<open>page\<close> are integers or \<^verbatim>\<open>undefined\<close>; arithmetic on
  \<^verbatim>\<open>undefined\<close> gives \<^verbatim>\<open>NaN\<close>.
\<close>

datatype 'a jsnum = NaN | Num 'a

definition to_number :: "'a option \<Rightarrow> 'a jsnum" where
  "to_number v = (case v of None \<Rightarrow> NaN | Some n \<Rightarrow> Num n)"

fun js_times :: "int jsnum \<Rightarrow> int jsnum \<Rightarrow> int jsnum" where
  "js_times (Num a) (Num b) = Num (a * b)"
| "js_times _ _ = NaN"

definition truthy_string :: "string option \<Rightarrow> bool" where
  "truthy_string s = (case s of None \<Rightarrow> False | Some v \<Rightarrow> v \<noteq> [])"

definition truthy_number :: "int option \<Rightarrow> bool" where
  "truthy_number n = (case n of None \<Rightarrow> False | Some v \<Rightarrow> v \<noteq> 0)"

definition greater_than_zero :: "int option \<Rightarrow> bool" where
  "greater_than_zero n = (case n of None \<Rightarrow> False | Some v \<Rightarrow> v > 0)"

section \<open>Definitions: project scope\<close>

text \<open>
  A document of the \<^verbatim>\<open>Projects\<close> collection, with the fields the selectors read
  (\<^verbatim>\<open>_id\<close>, \<^verbatim>\<open>userId\<close>, \<^verbatim>\<open>public\<close>, \<^verbatim>\<open>team\<close>, \<^verbatim>\<open>archived\<close>, \<^verbatim>\<open>customer\<close>); a field
  that a document does not have is \<^term>\<open>None\<close>.
\<close>

record project =
  p_id :: string
  p_userId :: "string option"
  p_public :: "bool option"
  p_team :: "string list option"
  p_archived :: "bool option"
  p_customer :: "string option"

text \<open>
  \<^verbatim>\<open>{ $or: [{ userId }, { public: true }, { team: userId }] }\<close>, where \<^verbatim>\<open>userId\<close> is
  \<^verbatim>\<open>Meteor.userId()\<close>: the id of the logged-in user, or \<^verbatim>\<open>null\<close>. An equality with
  \<^verbatim>\<open>null\<close> selects the documents without the field; an equality on the array field
  \<^verbatim>\<open>team\<close> selects the documents whose array holds the value.
\<close>

definition owner_public_or_team :: "string option \<Rightarrow> project \<Rightarrow> bool" where
  "owner_public_or_team userId p =
     (p_userId p = userId \<or> p_public p = Some True \<or>
      (case userId of
         None \<Rightarrow> p_team p = None
       | Some u \<Rightarrow> (case p_team p of None \<Rightarrow> False | Some t \<Rightarrow> u \<in> set t)))"

text \<open>\<^verbatim>\<open>{ $or: [{ archived: false }, { archived: { $exists: false } }] }\<close>\<close>

definition archived_false_or_missing :: "project \<Rightarrow> bool" where
  "archived_false_or_missing p = (p_archived p = Some False \<or> p_archived p = None)"

text \<open>\<^verbatim>\<open>_id: projectId\<close>, replaced by \<^verbatim>\<open>_id: { $in: projectId }\<close> for an array.\<close>

definition id_selected :: "selector \<Rightarrow> project \<Rightarrow> bool" where
  "id_selected projectId p =
     (case projectId of One s \<Rightarrow> p_id p = s | Many xs \<Rightarrow> p_id p \<in> set xs)"

text \<open>\<^verbatim>\<open>customer\<close>, replaced by \<^verbatim>\<open>customer: { $in: customer }\<close> for an array.\<close>

definition customer_selected :: "selector \<Rightarrow> project \<Rightarrow> bool" where
  "customer_selected customer p =
     (case customer of
        One s \<Rightarrow> p_customer p = Some s
      | Many xs \<Rightarrow> (case p_customer p of None \<Rightarrow> False | Some c \<Rightarrow> c \<in> set xs))"

text \<open>
  \<^verbatim>\<open>getProjectListById(projectId)\<close>, with the collection and \<^verbatim>\<open>Meteor.userId()\<close> as
  arguments. Both branches end in \<^verbatim>\<open>.fetch().map((value) => value._id)\<close>.
\<close>

definition getProjectListById :: "project list \<Rightarrow> string option \<Rightarrow> selector \<Rightarrow> string list" where
  "getProjectListById Projects userId projectId =
     (if js_includes projectId ''all'' then
        map p_id (filter (\<lambda>p. owner_public_or_team userId p \<and> archived_false_or_missing p)
                    Projects)
      else
        map p_id (filter (\<lambda>p. id_selected projectId p \<and> owner_public_or_team userId p
                                \<and> archived_false_or_missing p) Projects))"

text \<open>
  \<^verbatim>\<open>getProjectListByCustomer(customer)\<close> returns the cursor; its callers apply
  \<^verbatim>\<open>.fetch().map((value) => value._id)\<close>.
\<close>

definition getProjectListByCustomer ::
  "project list \<Rightarrow> string option \<Rightarrow> selector \<Rightarrow> project list" where
  "getProjectListByCustomer Projects userId customer =
     (if js_includes customer ''all'' then
        filter (\<lambda>p. owner_public_or_team userId p \<and> archived_false_or_missing p) Projects
      else
        filter (\<lambda>p. customer_selected customer p \<and> owner_public_or_team userId p
                      \<and> archived_false_or_missing p) Projects)"

text \<open>
  In the words of the specification: a project a user may see is not archived, and the user
  owns it, or it is public, or the user is in its team.
\<close>

definition may_see :: "string \<Rightarrow> project \<Rightarrow> bool" where
  "may_see u p =
     (p_archived p \<noteq> Some True \<and>
      (p_userId p = Some u \<or> p_public p = Some True \<or> (\<exists>t. p_team p = Some t \<and> u \<in> set t)))"

text \<open>
  Two projects for the examples: \<^verbatim>\<open>p1\<close> of customer \<^verbatim>\<open>c1\<close> belongs to user \<^verbatim>\<open>u\<close>;
  \<^verbatim>\<open>p2\<close> of customer \<^verbatim>\<open>c2\<close> belongs to user \<^verbatim>\<open>v\<close>, is not public and has the team
  \<^verbatim>\<open>w\<close>.
\<close>

definition example_projects :: "project list" where
  "example_projects =
     [\<lparr>p_id = ''p1'', p_userId = Some ''u'', p_public = None, p_team = None,
       p_archived = None, p_customer = Some ''c1''\<rparr>,
      \<lparr>p_id = ''p2'', p_userId = Some ''v'', p_public = Some False, p_team = Some [''w''],
       p_archived = Some False, p_customer = Some ''c2''\<rparr>]"

section \<open>Definitions: report query builders\<close>

subsection \<open>Pipeline stages\<close>

type_synonym date = int

record dates =
  startDate :: date
  endDate :: date

text \<open>
  The body of a \<^verbatim>\<open>$match\<close> stage: \<^verbatim>\<open>projectId: { $in: projectList }\<close>, the optional
  \<^verbatim>\<open>date: { $gte: ..., $lte: ... }\<close> and the optional \<^verbatim>\<open>userId\<close> (the argument as it is).
\<close>

record match_body =
  m_projectId_in :: "string list"
  m_date :: "(date \<times> date) option"
  m_userId :: "selector option"

text \<open>
  The stages the builders push: \<^verbatim>\<open>$addFields\<close> with the decimal \<^verbatim>\<open>convertedHours\<close>,
  \<^verbatim>\<open>$match\<close>, the empty object \<^verbatim>\<open>{}\<close> (the initial value of \<^verbatim>\<open>matchSelector\<close>),
  \<^verbatim>\<open>$group\<close> (the fields of its \<^verbatim>\<open>_id\<close>, the name of the sum and the summed field),
  \<^verbatim>\<open>$sort: { date: -1 }\<close>, \<^verbatim>\<open>$skip\<close> and \<^verbatim>\<open>$limit\<close>.
\<close>

datatype stage =
    AddFields_convertedHours
  | Match match_body
  | Empty_object
  | Group "string list" string string
  | Sort_date_descending
  | Skip "int jsnum"
  | Limit "int option"

text \<open>
  \<^verbatim>\<open>const skipSelector = { $skip: 0 }; if (page) { skipSelector.$skip = (page - 1) * limit }\<close>
\<close>

definition skipSelector :: "int option \<Rightarrow> int option \<Rightarrow> stage" where
  "skipSelector page limit =
     Skip (if truthy_number page then js_times (Num (the page - 1)) (to_number limit)
           else Num 0)"

text \<open>
  The project list of the three pipeline builders (the working-time builder has no
  \<^verbatim>\<open>customer\<close> argument and takes the second branch).
\<close>

definition projectList_of ::
  "project list \<Rightarrow> string option \<Rightarrow> selector \<Rightarrow> selector \<Rightarrow> string list" where
  "projectList_of Projects uid customer projectId =
     (if \<not> js_includes customer ''all''
      then map p_id (getProjectListByCustomer Projects uid customer)
      else getProjectListById Projects uid projectId)"

subsection \<open>\<^verbatim>\<open>buildTotalHoursForPeriodSelector\<close>\<close>

text \<open>
  \<^verbatim>\<open>periodToDates\<close> lives in \<^verbatim>\<open>periodHelpers.js\<close> and is a parameter here. The branches on
  \<^verbatim>\<open>period\<close> are \<^verbatim>\<open>period && period.includes('custom')\<close>,
  \<^verbatim>\<open>period && period !== 'all'\<close>, \<^verbatim>\<open>userId.includes('all')\<close>; there is no final
  \<^verbatim>\<open>else\<close>, so \<^verbatim>\<open>matchSelector\<close> keeps its initial value \<^verbatim>\<open>{}\<close> otherwise.
\<close>

definition buildTotalHoursForPeriodSelector ::
  "project list \<Rightarrow> string option \<Rightarrow> (string option \<Rightarrow> dates) \<Rightarrow>
   selector \<Rightarrow> string option \<Rightarrow> dates \<Rightarrow> selector \<Rightarrow> selector \<Rightarrow> int option \<Rightarrow> int option \<Rightarrow>
   stage list" where
  "buildTotalHoursForPeriodSelector Projects uid periodToDates
      projectId period dates userId customer limit page =
     (let projectList = projectList_of Projects uid customer projectId;
          matchSelector =
            (if truthy_string period \<and> string_includes (the period) ''custom'' then
               (if \<not> js_includes userId ''all''
                then Match \<lparr>m_projectId_in = projectList,
                            m_date = Some (startDate dates, endDate dates),
                            m_userId = Some userId\<rparr>
                else Match \<lparr>m_projectId_in = projectList,
                            m_date = Some (startDate dates, endDate dates),
                            m_userId = None\<rparr>)
             else if truthy_string period \<and> the period \<noteq> ''all'' then
               (let d = periodToDates period in
                if \<not> js_includes userId ''all''
                then Match \<lparr>m_projectId_in = projectList,
                            m_date = Some (startDate d, endDate d),
                            m_userId = Some userId\<rparr>
                else Match \<lparr>m_projectId_in = projectList,
                            m_date = Some (startDate d, endDate d),
                            m_userId = None\<rparr>)
             else if js_includes userId ''all'' then
               Match \<lparr>m_projectId_in = projectList, m_date = None, m_userId = None\<rparr>
             else Empty_object)
      in [AddFields_convertedHours, matchSelector,
          Group [''userId'', ''projectId''] ''totalHours'' ''convertedHours'',
          Sort_date_descending, skipSelector page limit]
         @ (if greater_than_zero limit then [Limit limit] else []))"

subsection \<open>\<^verbatim>\<open>buildDailyHoursSelector\<close> and \<^verbatim>\<open>buildworkingTimeSelector\<close>\<close>

text \<open>
  The \<^verbatim>\<open>matchSelector\<close> of these two builders: the branches are
  \<^verbatim>\<open>period && period === 'custom'\<close>, \<^verbatim>\<open>period && period !== 'all'\<close>, and a last one
  without dates; each one tests \<^verbatim>\<open>userId.includes('all')\<close>.
\<close>

definition matchSelector_of ::
  "(string option \<Rightarrow> dates) \<Rightarrow> string list \<Rightarrow> string option \<Rightarrow> dates \<Rightarrow> selector \<Rightarrow> stage"
  where
  "matchSelector_of periodToDates projectList period dates userId =
     (if truthy_string period \<and> the period = ''custom'' then
        (if js_includes userId ''all''
         then Match \<lparr>m_projectId_in = projectList,
                     m_date = Some (startDate dates, endDate dates), m_userId = None\<rparr>
         else Match \<lparr>m_projectId_in = projectList,
                     m_date = Some (startDate dates, endDate dates), m_userId = Some userId\<rparr>)
      else if truthy_string period \<and> the period \<noteq> ''all'' then
        (let d = periodToDates period in
         if js_includes userId ''all''
         then Match \<lparr>m_projectId_in = projectList,
                     m_date = Some (startDate d, endDate d), m_userId = None\<rparr>
         else Match \<lparr>m_projectId_in = projectList,
                     m_date = Some (startDate d, endDate d), m_userId = Some userId\<rparr>)
      else if js_includes userId ''all'' then
        Match \<lparr>m_projectId_in = projectList, m_date = None, m_userId = None\<rparr>
      else
        Match \<lparr>m_projectId_in = projectList, m_date = None, m_userId = Some userId\<rparr>)"

definition buildDailyHoursSelector ::
  "project list \<Rightarrow> string option \<Rightarrow> (string option \<Rightarrow> dates) \<Rightarrow>
   selector \<Rightarrow> string option \<Rightarrow> dates \<Rightarrow> selector \<Rightarrow> selector \<Rightarrow> int option \<Rightarrow> int option \<Rightarrow>
   stage list" where
  "buildDailyHoursSelector Projects uid periodToDates
      projectId period dates userId customer limit page =
     (let projectList = projectList_of Projects uid customer projectId
      in [matchSelector_of periodToDates projectList period dates userId,
          Group [''userId'', ''projectId'', ''date''] ''totalHours'' ''hours'',
          Sort_date_descending, skipSelector page limit]
         @ (if greater_than_zero limit then [Limit limit] else []))"

text \<open>The working-time builder pushes the skip stage before the sort stage.\<close>

definition buildworkingTimeSelector ::
  "project list \<Rightarrow> string option \<Rightarrow> (string option \<Rightarrow> dates) \<Rightarrow>
   selector \<Rightarrow> string option \<Rightarrow> dates \<Rightarrow> selector \<Rightarrow> int option \<Rightarrow> int option \<Rightarrow>
   stage list" where
  "buildworkingTimeSelector Projects uid periodToDates projectId period dates userId limit page =
     (let projectList = getProjectListById Projects uid projectId
      in [matchSelector_of periodToDates projectList period dates userId,
          Group [''userId'', ''date''] ''totalTime'' ''hours'',
          skipSelector page limit, Sort_date_descending]
         @ (if greater_than_zero limit then [Limit limit] else []))"

subsection \<open>\<^verbatim>\<open>buildDetailedTimeEntriesForPeriodSelector\<close>\<close>

text \<open>
  The escaping of the search text:
  \<^verbatim>\<open>search.replace(/[-[\]{}()*+?.,\\/^$|#\s]/g, '\\$&')\<close> puts a backslash before every
  character of the class. The class \<^verbatim>\<open>\s\<close> holds, among the code units below 256, the
  units 9 to 13, 32 and 160.
\<close>

definition backslash :: char where
  "backslash = CHR 0x5C"

definition js_whitespace :: "char \<Rightarrow> bool" where
  "js_whitespace c = (of_char c \<in> {9, 10, 11, 12, 13, 32, 160 :: nat})"

definition escaped_class :: "char \<Rightarrow> bool" where
  "escaped_class c = (c \<in> set ''-[]{}()*+?.,/^$|#'' \<or> c = backslash \<or> js_whitespace c)"

definition escape_search :: "string \<Rightarrow> string" where
  "escape_search search =
     concat (map (\<lambda>c. if escaped_class c then [backslash, c] else [c]) search)"

text \<open>
  The query: \<^verbatim>\<open>projectId: { $in: projectList }\<close>, the optional
  \<^verbatim>\<open>task: { $regex: ..., $options: 'i' }\<close>, the optional date range and the optional
  \<^verbatim>\<open>userId\<close>, which is \<^verbatim>\<open>{ $in: userId }\<close> for an array and the value itself otherwise.
\<close>

datatype user_clause = User_is string | User_in "string list"

record query =
  q_projectId_in :: "string list"
  q_task :: "(string \<times> string) option"
  q_date :: "(date \<times> date) option"
  q_userId :: "user_clause option"

text \<open>
  The options: \<^verbatim>\<open>sort\<close> (an object, here the list of its keys with their values),
  \<^verbatim>\<open>limit\<close> and \<^verbatim>\<open>skip\<close>, the last two only when the builder assigns them.
\<close>

record find_options =
  o_sort :: "(string \<times> int) list"
  o_limit :: "int option"
  o_skip :: "int jsnum option"

record sort_argument =
  s_column :: "int option"
  s_order :: "string option"

text \<open>
  The argument object. The type \<open>'f\<close> is the type of the \<^verbatim>\<open>filters\<close> object; the loop
  that rewrites its keys (\<^verbatim>\<open>customer\<close>, \<^verbatim>\<open>state\<close>, \<^verbatim>\<open>date\<close>, \<^verbatim>\<open>hours\<close>) in place
  is the parameter \<open>rewriteFilters\<close> of the builder.
\<close>

record 'f detailed_arguments =
  a_projectId :: selector
  a_search :: "string option"
  a_customer :: selector
  a_period :: "string option"
  a_dates :: dates
  a_userId :: selector
  a_limit :: "int option"
  a_page :: "int option"
  a_sort :: "sort_argument option"
  a_filters :: "'f option"

text \<open>\<^verbatim>\<open>finalQuery\<close> is the query, or \<^verbatim>\<open>{ $and: [query, filters] }\<close>.\<close>

datatype 'f final_query = Query query | And_filters query 'f

fun base_query :: "'f final_query \<Rightarrow> query" where
  "base_query (Query q) = q"
| "base_query (And_filters q f) = q"

definition sort_field :: "int option \<Rightarrow> string" where
  "sort_field column =
     (if column = Some 0 then ''projectId''
      else if column = Some 1 then ''date''
      else if column = Some 2 then ''task''
      else if column = Some 3 then ''userId''
      else if column = Some 4 then ''hours''
      else ''date'')"

definition sort_order :: "string option \<Rightarrow> int" where
  "sort_order order = (if order = Some ''asc'' then 1 else - 1)"

definition buildDetailedTimeEntriesForPeriodSelector ::
  "project list \<Rightarrow> string option \<Rightarrow> (string option \<Rightarrow> dates) \<Rightarrow> ('f \<Rightarrow> 'f) \<Rightarrow>
   'f detailed_arguments \<Rightarrow> 'f final_query \<times> find_options" where
  "buildDetailedTimeEntriesForPeriodSelector Projects uid periodToDates rewriteFilters args =
     (let projectList =
            (if \<not> js_includes (a_customer args) ''all'' \<and> js_includes (a_projectId args) ''all''
             then map p_id (getProjectListByCustomer Projects uid (a_customer args))
             else getProjectListById Projects uid (a_projectId args));
          query = \<lparr>q_projectId_in = projectList,
                   q_task = (if truthy_string (a_search args)
                             then Some (''.*'' @ escape_search (the (a_search args)) @ ''.*'', ''i'')
                             else None),
                   q_date = (if a_period args = Some ''custom''
                             then Some (startDate (a_dates args), endDate (a_dates args))
                             else if a_period args \<noteq> Some ''all''
                             then (let d = periodToDates (a_period args)
                                   in Some (startDate d, endDate d))
                             else None),
                   q_userId = (if \<not> js_includes (a_userId args) ''all''
                               then (case a_userId args of
                                       Many xs \<Rightarrow> Some (User_in xs)
                                     | One x \<Rightarrow> Some (User_is x))
                               else None)\<rparr>;
          options = \<lparr>o_sort = (case a_sort args of
                                 Some s \<Rightarrow> [(sort_field (s_column s), sort_order (s_order s))]
                               | None \<Rightarrow> [(''date'', - 1)]),
                     o_limit = (if truthy_number (a_limit args) \<and> greater_than_zero (a_limit args)
                                then a_limit args else None),
                     o_skip = (if truthy_number (a_page args)
                               then Some (js_times (Num (the (a_page args) - 1))
                                            (to_number (a_limit args)))
                               else None)\<rparr>;
          finalQuery = (case a_filters args of
                          None \<Rightarrow> Query query
                        | Some filters \<Rightarrow> And_filters query (rewriteFilters filters))
      in (finalQuery, options))"

subsection \<open>Reading a pipeline\<close>

text \<open>
  The values of the \<^verbatim>\<open>$skip\<close> stages and of the \<^verbatim>\<open>$limit\<close> stages of a pipeline, and
  the pagination rule in the words of the specification: skip \<open>(page - 1) * limit\<close> when a
  page is given (a number other than 0), else 0.
\<close>

definition skip_stages :: "stage list \<Rightarrow> int jsnum list" where
  "skip_stages pipeline = concat (map (\<lambda>s. case s of Skip n \<Rightarrow> [n] | _ \<Rightarrow> []) pipeline)"

definition limit_stages :: "stage list \<Rightarrow> int option list" where
  "limit_stages pipeline = concat (map (\<lambda>s. case s of Limit n \<Rightarrow> [n] | _ \<Rightarrow> []) pipeline)"

definition paged_skip :: "int option \<Rightarrow> int option \<Rightarrow> int jsnum" where
  "paged_skip page limit =
     (case page of
        None \<Rightarrow> Num 0
      | Some p \<Rightarrow> if p = 0 then Num 0
                  else (case limit of None \<Rightarrow> NaN | Some l \<Rightarrow> Num ((p - 1) * l)))"

text \<open>
  The skip of a find: the documents of the result are passed over as the option
  \<^verbatim>\<open>skip\<close> says, and none is passed over when the options have no \<^verbatim>\<open>skip\<close>.
\<close>

definition skip_of :: "find_options \<Rightarrow> int jsnum" where
  "skip_of options = (case o_skip options of None \<Rightarrow> Num 0 | Some n \<Rightarrow> n)"

subsection \<open>Example arguments\<close>

text \<open>
  A request for the detailed time entries of project \<^verbatim>\<open>p2\<close> and customer \<^verbatim>\<open>c1\<close>, all
  users, all dates, no search, no page, no limit, no sort and no filters.
\<close>

definition example_dates :: dates where
  "example_dates = \<lparr>startDate = 0, endDate = 86399999\<rparr>"

definition example_arguments :: "unit detailed_arguments" where
  "example_arguments =
     \<lparr>a_projectId = One ''p2'', a_search = None, a_customer = One ''c1'',
      a_period = Some ''all'', a_dates = example_dates, a_userId = One ''all'',
      a_limit = None, a_page = None, a_sort = None, a_filters = None\<rparr>"

section \<open>Definitions: the regular expressions of the document store\<close>

text \<open>
  The document store evaluates \<^verbatim>\<open>$regex\<close> with Perl-compatible regular expressions. This
  section models the part of them that decides what a pattern of
  \<^verbatim>\<open>buildDetailedTimeEntriesForPeriodSelector\<close> selects.

  Reading a pattern. Outside a character class the metacharacters are
  \<^verbatim>\<open>^ $ . [ | ( ) ? * + {\<close> and the backslash. A backslash before a character that is not
  a letter or a digit stands for that character; before a letter or a digit it starts an
  escape sequence with a meaning of its own (\<^verbatim>\<open>\d\<close>, \<^verbatim>\<open>\s\<close>, \<^verbatim>\<open>\b\<close>, ...). Every
  other character stands for itself.
\<close>

definition metacharacter :: "char \<Rightarrow> bool" where
  "metacharacter c = (c \<in> set ''^$.[|()?*+{'')"

definition alphanumeric :: "char \<Rightarrow> bool" where
  "alphanumeric c =
     (let n = (of_char c :: nat)
      in (48 \<le> n \<and> n \<le> 57) \<or> (65 \<le> n \<and> n \<le> 90) \<or> (97 \<le> n \<and> n \<le> 122))"

datatype token = Literal char | Meta char | Escape_sequence char | Trailing_backslash

fun tokenize :: "string \<Rightarrow> token list" where
  "tokenize [] = []"
| "tokenize (c # cs) =
     (if c = backslash then
        (case cs of
           [] \<Rightarrow> [Trailing_backslash]
         | d # ds \<Rightarrow> (if alphanumeric d then Escape_sequence d else Literal d) # tokenize ds)
      else (if metacharacter c then Meta c else Literal c) # tokenize cs)"

text \<open>
  Matching. The patterns with a model are sequences of atoms (a literal character, or
  \<^verbatim>\<open>.\<close>), each one possibly followed by \<^verbatim>\<open>*\<close>; any other use of a metacharacter or of an
  escape sequence has none (\<^term>\<open>None\<close>). The dot matches every character but the line
  feed; \<^verbatim>\<open>x*\<close> matches any number of \<^verbatim>\<open>x\<close>; with the option \<^verbatim>\<open>i\<close> letters match in
  either case; a pattern matches a subject when it matches from some position of it.
\<close>

datatype atom = Character char | Any_character

datatype item = Once atom | Star atom

fun atom_of :: "token \<Rightarrow> atom option" where
  "atom_of (Literal c) = Some (Character c)"
| "atom_of (Meta c) = (if c = CHR ''.'' then Some Any_character else None)"
| "atom_of _ = None"

fun parse_items :: "token list \<Rightarrow> item list option" where
  "parse_items [] = Some []"
| "parse_items (t # ts) =
     (case atom_of t of
        None \<Rightarrow> None
      | Some a \<Rightarrow>
          (case ts of
             Meta c # ts' \<Rightarrow>
               (if c = CHR ''*'' then map_option ((#) (Star a)) (parse_items ts')
                else map_option ((#) (Once a)) (parse_items ts))
           | _ \<Rightarrow> map_option ((#) (Once a)) (parse_items ts)))"

fun atom_matches :: "bool \<Rightarrow> atom \<Rightarrow> char \<Rightarrow> bool" where
  "atom_matches caseless (Character c) d =
     (if caseless then lower_char c = lower_char d else c = d)"
| "atom_matches caseless Any_character d = (d \<noteq> CHR 0x0A)"

fun match_here :: "bool \<Rightarrow> item list \<Rightarrow> string \<Rightarrow> bool" where
  "match_here caseless [] s = True"
| "match_here caseless (Once a # r) [] = False"
| "match_here caseless (Once a # r) (d # s) =
     (atom_matches caseless a d \<and> match_here caseless r s)"
| "match_here caseless (Star a # r) [] = match_here caseless r []"
| "match_here caseless (Star a # r) (d # s) =
     (match_here caseless r (d # s)
      \<or> (atom_matches caseless a d \<and> match_here caseless (Star a # r) s))"

fun match_anywhere :: "bool \<Rightarrow> item list \<Rightarrow> string \<Rightarrow> bool" where
  "match_anywhere caseless r [] = match_here caseless r []"
| "match_anywhere caseless r (d # s) =
     (match_here caseless r (d # s) \<or> match_anywhere caseless r s)"

definition regex_matches :: "string \<Rightarrow> string \<Rightarrow> string \<Rightarrow> bool option" where
  "regex_matches pattern opts subject =
     map_option (\<lambda>r. match_anywhere (CHR ''i'' \<in> set opts) r subject)
       (parse_items (tokenize pattern))"

text \<open>What the \<^verbatim>\<open>task\<close> clause of a query selects; a query without the clause selects every task.\<close>

definition task_selected :: "query \<Rightarrow> string \<Rightarrow> bool" where
  "task_selected q task =
     (case q_task q of
        None \<Rightarrow> True
      | Some (pattern, opts) \<Rightarrow> regex_matches pattern opts task = Some True)"

section \<open>Definitions: users and the authentication mixin\<close>

text \<open>
  A document of \<^verbatim>\<open>Meteor.users\<close> with the fields read here: \<^verbatim>\<open>inactive\<close>,
  \<^verbatim>\<open>isAdmin\<close> and the \<^verbatim>\<open>profile\<close> with the name and the working-time settings of the
  user (times of day as \<^verbatim>\<open>HH:mm\<close> strings, durations as numbers of hours).
\<close>

record profile =
  pr_name :: "string option"
  pr_breakStartTime :: "string option"
  pr_breakDuration :: "rat option"
  pr_regularWorkingTime :: "rat option"
  pr_dailyStartTime :: "string option"

record user =
  u_inactive :: "bool option"
  u_isAdmin :: "bool option"
  u_profile :: "profile option"

text \<open>
  The error of the two checks is \<^verbatim>\<open>new Meteor.Error('notifications.auth_error_method')\<close>.
\<close>

datatype error = Meteor_Error string

definition auth_error :: error where
  "auth_error = Meteor_Error ''notifications.auth_error_method''"

text \<open>
  The method invocation object (\<^verbatim>\<open>context\<close>, the \<^verbatim>\<open>this\<close> of a method): its
  \<^verbatim>\<open>userId\<close> is the id of the logged-in caller, or \<^verbatim>\<open>null\<close>.
\<close>

record method_context =
  c_userId :: "string option"

text \<open>
  \<^verbatim>\<open>Meteor.users.findOneAsync({ _id: context.userId })\<close>; the collection is a map from ids
  to documents.
\<close>

definition findOne_user :: "(string \<rightharpoonup> user) \<Rightarrow> string option \<Rightarrow> user option" where
  "findOne_user users uid = (case uid of None \<Rightarrow> None | Some i \<Rightarrow> users i)"

text \<open>
  \<^verbatim>\<open>
  async function checkAuthentication(context) {
    const meteorUser = await Meteor.users.findOneAsync({ _id: context.userId })
    if (!context.userId || meteorUser?.inactive) {
      throw new Meteor.Error('notifications.auth_error_method')
    }
  }
  \<close>
\<close>

definition checkAuthentication :: "(string \<rightharpoonup> user) \<Rightarrow> method_context \<Rightarrow> error + unit" where
  "checkAuthentication users ctx =
     (let meteorUser = findOne_user users (c_userId ctx)
      in if \<not> truthy_string (c_userId ctx)
            \<or> (case meteorUser of None \<Rightarrow> False | Some usr \<Rightarrow> u_inactive usr = Some True)
         then Inl auth_error
         else Inr ())"

text \<open>
  The state of the server that a method body reads and changes: the users collection, and
  whatever else in the extension of the record. A method body takes the invocation object,
  its arguments and the state, and returns its result or error with the new state.
\<close>

record world =
  w_users :: "string \<rightharpoonup> user"

type_synonym ('a, 'r, 'z) method_body =
  "method_context \<Rightarrow> 'a \<Rightarrow> 'z world_scheme \<Rightarrow> (error + 'r) \<times> 'z world_scheme"

text \<open>
  \<^verbatim>\<open>
  function authenticationMixin(methodOptions) {
    const runFunc = methodOptions.run
    methodOptions.run = async function (args) {
      await checkAuthentication(this)
      return runFunc.call(this, args)
    }
    return methodOptions
  }
  \<close>
  The mixin maps the old \<^verbatim>\<open>run\<close> to the new one.
\<close>

definition authenticationMixin :: "('a, 'r, 'z) method_body \<Rightarrow> ('a, 'r, 'z) method_body" where
  "authenticationMixin runFunc =
     (\<lambda>ctx args w.
        case checkAuthentication (w_users w) ctx of
          Inl e \<Rightarrow> (Inl e, w)
        | Inr _ \<Rightarrow> runFunc ctx args w)"

text \<open>
  For the examples: a server whose only user \<^verbatim>\<open>u1\<close> is inactive and has a profile without
  working-time settings, and a method body that deletes every user.
\<close>

definition example_user :: user where
  "example_user =
     \<lparr>u_inactive = Some True, u_isAdmin = None,
      u_profile = Some \<lparr>pr_name = Some ''Ann'', pr_breakStartTime = None,
                        pr_breakDuration = None, pr_regularWorkingTime = None,
                        pr_dailyStartTime = None\<rparr>\<rparr>"

definition example_world :: world where
  "example_world = \<lparr>w_users = [''u1'' \<mapsto> example_user]\<rparr>"

definition delete_all_users :: "(unit, unit, unit) method_body" where
  "delete_all_users ctx args w = (Inr (), w\<lparr>w_users := Map.empty\<rparr>)"

section \<open>Definitions: the working-time mapper\<close>

subsection \<open>Settings\<close>

text \<open>
  \<^verbatim>\<open>Globalsettings\<close> maps a name to a value. \<^verbatim>\<open>getGlobalSettingAsync(name)\<close> is an
  \<^verbatim>\<open>async\<close> function: a call returns a promise, and the value (that of the setting, or
  \<^verbatim>\<open>false\<close> when there is none) is what \<^verbatim>\<open>await\<close> gives.
\<close>

datatype gvalue = GString string | GNumber rat | GBool bool

definition getGlobalSetting_value :: "(string \<rightharpoonup> gvalue) \<Rightarrow> string \<Rightarrow> gvalue" where
  "getGlobalSetting_value Globalsettings name =
     (case Globalsettings name of None \<Rightarrow> GBool False | Some v \<Rightarrow> v)"

fun truthy_gvalue :: "gvalue \<Rightarrow> bool" where
  "truthy_gvalue (GString s) = (s \<noteq> [])"
| "truthy_gvalue (GNumber n) = (n \<noteq> 0)"
| "truthy_gvalue (GBool b) = b"

text \<open>
  The mapper reads each of its four settings with
  \<^verbatim>\<open>meteorUser?.profile?.x ? meteorUser.profile.x : getGlobalSettingAsync('x')\<close>,
  without \<^verbatim>\<open>await\<close>: the result is the value of the profile when it is truthy, and the
  promise otherwise. Nothing in the mapper reads what a promise resolves to.
\<close>

datatype 'a or_promise = Value 'a | Promise

definition profile_or_global :: "('a \<Rightarrow> bool) \<Rightarrow> 'a option \<Rightarrow> 'a or_promise" where
  "profile_or_global truthy v =
     (case v of None \<Rightarrow> Promise | Some x \<Rightarrow> if truthy x then Value x else Promise)"

text \<open>
  \<^verbatim>\<open>Number(x)\<close> and \<^verbatim>\<open>a - x\<close> for such a value: a promise converts to \<^verbatim>\<open>NaN\<close>.
\<close>

fun Number :: "rat or_promise \<Rightarrow> rat jsnum" where
  "Number (Value n) = Num n"
| "Number Promise = NaN"

fun js_minus :: "rat \<Rightarrow> rat or_promise \<Rightarrow> rat jsnum" where
  "js_minus a (Value b) = Num (a - b)"
| "js_minus a Promise = NaN"

subsection \<open>The \<^verbatim>\<open>dayjs\<close> operations of the mapper\<close>

text \<open>
  A \<^verbatim>\<open>dayjs\<close> object is invalid, or an instant; instants are counted in milliseconds from
  the local midnight of the current day, on a day without a change of the clock.

  \<^verbatim>\<open>dayjs(input, 'HH:mm')\<close> with the plugin \<^verbatim>\<open>customParseFormat\<close>: the hours are the
  first run of one or two digits of the input; that run is removed, one character is
  skipped for the colon, and the minutes are the first run of one or two digits of the
  rest. When a run is missing, or when the input is not a string (a promise), the object is
  invalid. Otherwise it is the given time of the current day.
\<close>

datatype dayjs = Invalid_Date | At int

definition is_digit :: "char \<Rightarrow> bool" where
  "is_digit c = (48 \<le> (of_char c :: nat) \<and> (of_char c :: nat) \<le> 57)"

definition digit_value :: "char \<Rightarrow> int" where
  "digit_value c = int (of_char c) - 48"

fun digits_value :: "string \<Rightarrow> int" where
  "digits_value [] = 0"
| "digits_value (c # cs) = digit_value c * 10 ^ length cs + digits_value cs"

fun match1to2 :: "string \<Rightarrow> (string \<times> string) option" where
  "match1to2 [] = None"
| "match1to2 (c # cs) =
     (if is_digit c then
        (case cs of
           [] \<Rightarrow> Some ([c], [])
         | d # ds \<Rightarrow> if is_digit d then Some ([c, d], ds) else Some ([c], cs))
      else map_option (\<lambda>(v, r). (v, c # r)) (match1to2 cs))"

definition parse_HH_mm :: "string \<Rightarrow> dayjs" where
  "parse_HH_mm input =
     (case match1to2 input of
        None \<Rightarrow> Invalid_Date
      | Some (hours, input') \<Rightarrow>
          (case match1to2 (drop 1 input') of
             None \<Rightarrow> Invalid_Date
           | Some (minutes, input'') \<Rightarrow>
               At ((digits_value hours * 60 + digits_value minutes) * 60000)))"

fun dayjs_HH_mm :: "string or_promise \<Rightarrow> dayjs" where
  "dayjs_HH_mm (Value s) = parse_HH_mm s"
| "dayjs_HH_mm Promise = Invalid_Date"

text \<open>
  \<^verbatim>\<open>d.add(n, 'hour')\<close> adds \<^verbatim>\<open>Number(n) * 3600000\<close> to the time stamp, and the date keeps
  its whole milliseconds; with an invalid date or \<^verbatim>\<open>NaN\<close> the result is invalid.
  \<^verbatim>\<open>a.isAfter(b)\<close> compares the time stamps and is false when one is invalid.
  \<^verbatim>\<open>d.format('HH:mm')\<close> is the local time of day, or \<^verbatim>\<open>'Invalid Date'\<close>.
\<close>

fun add_hours :: "dayjs \<Rightarrow> rat jsnum \<Rightarrow> dayjs" where
  "add_hours (At t) (Num n) = At \<lfloor>of_int t + n * 3600000\<rfloor>"
| "add_hours _ _ = Invalid_Date"

fun isAfter :: "dayjs \<Rightarrow> dayjs \<Rightarrow> bool" where
  "isAfter (At a) (At b) = (a > b)"
| "isAfter _ _ = False"

definition two_digits :: "int \<Rightarrow> string" where
  "two_digits n = [char_of (48 + nat (n div 10)), char_of (48 + nat (n mod 10))]"

fun format_HH_mm :: "dayjs \<Rightarrow> string" where
  "format_HH_mm Invalid_Date = ''Invalid Date''"
| "format_HH_mm (At t) =
     (let minute = (t div 60000) mod 1440
      in two_digits (minute div 60) @ '':'' @ two_digits (minute mod 60))"

subsection \<open>\<^verbatim>\<open>workingTimeEntriesMapper\<close>\<close>

text \<open>
  The aggregated record \<^verbatim>\<open>{ _id: { userId, date }, totalTime }\<close> and the mapped record.
\<close>

record entry =
  e_userId :: string
  e_date :: date
  e_totalTime :: rat

record working_time =
  date :: date
  resource :: "string option"
  startTime :: "string or_promise"
  breakStartTime :: string
  breakEndTime :: string
  endTime :: string
  totalTime :: rat
  regularWorkingTime :: "rat jsnum"
  regularWorkingTimeDifference :: "rat jsnum"

definition workingTimeEntriesMapper ::
  "(string \<rightharpoonup> user) \<Rightarrow> (string \<rightharpoonup> gvalue) \<Rightarrow> entry \<Rightarrow> working_time" where
  "workingTimeEntriesMapper users Globalsettings entry =
     (let meteorUser = users (e_userId entry);
          profile = Option.bind meteorUser u_profile;
          userBreakStartTime =
            dayjs_HH_mm (profile_or_global (\<lambda>s. s \<noteq> []) (Option.bind profile pr_breakStartTime));
          userBreakDuration =
            profile_or_global (\<lambda>n. n \<noteq> 0) (Option.bind profile pr_breakDuration);
          userBreakEndTime = add_hours userBreakStartTime (Number userBreakDuration);
          userRegularWorkingTime =
            profile_or_global (\<lambda>n. n \<noteq> 0) (Option.bind profile pr_regularWorkingTime);
          userStartTime =
            profile_or_global (\<lambda>s. s \<noteq> []) (Option.bind profile pr_dailyStartTime);
          userEndTime = add_hours (dayjs_HH_mm userStartTime) (Num (e_totalTime entry));
          userEndTime' =
            (if truthy_gvalue (getGlobalSetting_value Globalsettings ''addBreakToWorkingTime'')
             then add_hours userEndTime (Number userBreakDuration)
             else userEndTime)
      in \<lparr>date = e_date entry,
          resource = Option.bind profile pr_name,
          startTime = userStartTime,
          breakStartTime =
            (if isAfter userEndTime' userBreakStartTime then format_HH_mm userBreakStartTime
             else []),
          breakEndTime =
            (if isAfter userEndTime' userBreakStartTime then format_HH_mm userBreakEndTime
             else []),
          endTime = format_HH_mm userEndTime',
          totalTime = e_totalTime entry,
          regularWorkingTime = Number userRegularWorkingTime,
          regularWorkingTimeDifference = js_minus (e_totalTime entry) userRegularWorkingTime\<rparr>)"

text \<open>
  For the examples: global settings with start 09:00, break at 12:00 for one hour, eight
  regular hours and the break not added to the working time; user \<^verbatim>\<open>ann\<close>, whose profile
  has a name only, and user \<^verbatim>\<open>bob\<close>, whose profile holds the same four settings.
\<close>

definition global_settings :: "string \<rightharpoonup> gvalue" where
  "global_settings =
     [''dailyStartTime'' \<mapsto> GString ''09:00'', ''breakStartTime'' \<mapsto> GString ''12:00'',
      ''breakDuration'' \<mapsto> GNumber 1, ''regularWorkingTime'' \<mapsto> GNumber 8,
      ''addBreakToWorkingTime'' \<mapsto> GBool False]"

definition user_without_settings :: user where
  "user_without_settings =
     \<lparr>u_inactive = None, u_isAdmin = None,
      u_profile = Some \<lparr>pr_name = Some ''Ann'', pr_breakStartTime = None,
                        pr_breakDuration = None, pr_regularWorkingTime = None,
                        pr_dailyStartTime = None\<rparr>\<rparr>"

definition user_with_settings :: user where
  "user_with_settings =
     \<lparr>u_inactive = None, u_isAdmin = None,
      u_profile = Some \<lparr>pr_name = Some ''Bob'', pr_breakStartTime = Some ''12:00'',
                        pr_breakDuration = Some 1, pr_regularWorkingTime = Some 8,
                        pr_dailyStartTime = Some ''09:00''\<rparr>\<rparr>"

section \<open>Verification: project scope\<close>

text \<open>For a logged-in user the two selectors of the query say what the specification says.\<close>

lemma owner_public_or_team_Some:
  "owner_public_or_team (Some u) p \<and> archived_false_or_missing p \<longleftrightarrow> may_see u p"
  by (cases "p_archived p"; cases "p_team p")
     (auto simp: owner_public_or_team_def archived_false_or_missing_def may_see_def)

lemma getProjectListById_eq:
  "getProjectListById Projects (Some u) projectId =
     map p_id (filter (\<lambda>p. (js_includes projectId ''all'' \<or> id_selected projectId p)
                             \<and> may_see u p) Projects)"
proof -
  have "(\<lambda>p. id_selected projectId p \<and> owner_public_or_team (Some u) p
              \<and> archived_false_or_missing p) = (\<lambda>p. id_selected projectId p \<and> may_see u p)"
    "(\<lambda>p. owner_public_or_team (Some u) p \<and> archived_false_or_missing p) = may_see u"
    using owner_public_or_team_Some by auto
  then show ?thesis by (simp add: getProjectListById_def)
qed

text \<open>
  Claim C1. For a call of \<^verbatim>\<open>getProjectListById(projectId)\<close> by a user \<open>u\<close>, every id of the
  result is the id of a project that is not archived and that \<open>u\<close> owns, or that is public,
  or whose team holds \<open>u\<close>; when \<^verbatim>\<open>projectId\<close> names one id or an array of ids, the result
  holds named ids only; the result is the empty list exactly when no project matches, and
  the function has no error result. For \<^verbatim>\<open>["p1", "p2"]\<close> and a user who owns only
  \<^verbatim>\<open>p1\<close> the result is \<^verbatim>\<open>["p1"]\<close>.
\<close>

theorem getProjectListById_scope:
  "(\<forall>i \<in> set (getProjectListById Projects (Some u) projectId).
      \<exists>p \<in> set Projects. p_id p = i \<and> may_see u p)
   \<and> (\<not> js_includes projectId ''all'' \<longrightarrow>
        (\<forall>i \<in> set (getProjectListById Projects (Some u) projectId).
           case projectId of One s \<Rightarrow> i = s | Many xs \<Rightarrow> i \<in> set xs))
   \<and> ((getProjectListById Projects (Some u) projectId = []) =
        (\<forall>p \<in> set Projects.
           \<not> ((js_includes projectId ''all'' \<or> id_selected projectId p) \<and> may_see u p)))
   \<and> getProjectListById example_projects (Some ''u'') (Many [''p1'', ''p2'']) = [''p1'']"
proof (intro conjI impI)
  show "\<forall>i \<in> set (getProjectListById Projects (Some u) projectId).
      \<exists>p \<in> set Projects. p_id p = i \<and> may_see u p"
    unfolding getProjectListById_eq by auto
next
  assume "\<not> js_includes projectId ''all''"
  then show "\<forall>i \<in> set (getProjectListById Projects (Some u) projectId).
           case projectId of One s \<Rightarrow> i = s | Many xs \<Rightarrow> i \<in> set xs"
    unfolding getProjectListById_eq
    by (auto simp: id_selected_def split: selector.splits)
next
  show "(getProjectListById Projects (Some u) projectId = []) =
        (\<forall>p \<in> set Projects.
           \<not> ((js_includes projectId ''all'' \<or> id_selected projectId p) \<and> may_see u p))"
    unfolding getProjectListById_eq by (simp add: filter_empty_conv)
next
  show "getProjectListById example_projects (Some ''u'') (Many [''p1'', ''p2'']) = [''p1'']"
    by (simp add: getProjectListById_def example_projects_def js_includes_def id_selected_def
        owner_public_or_team_def archived_false_or_missing_def)
qed

text \<open>
  C1 at the example projects: user \<^verbatim>\<open>u\<close> naming both projects, and user \<^verbatim>\<open>w\<close>, who is
  only in the team of \<^verbatim>\<open>p2\<close>, naming \<^verbatim>\<open>p1\<close>.
\<close>

theorem getProjectListById_scope_witness:
  "\<not> js_includes (Many [''p1'', ''p2'']) ''all''
   \<and> set (getProjectListById example_projects (Some ''u'') (Many [''p1'', ''p2'']))
       \<subseteq> {''p1'', ''p2''}
   \<and> (\<exists>p \<in> set example_projects. p_id p = ''p1'' \<and> may_see ''u'' p)
   \<and> getProjectListById example_projects (Some ''w'') (One ''p1'') = []"
proof -
  have n: "\<not> js_includes (Many [''p1'', ''p2'']) ''all''"
    by (simp add: js_includes_def)
  have e: "\<forall>p \<in> set example_projects.
      \<not> ((js_includes (One ''p1'') ''all'' \<or> id_selected (One ''p1'') p) \<and> may_see ''w'' p)"
    by (simp add: example_projects_def js_includes_def id_selected_def may_see_def)
  note t = getProjectListById_scope [of example_projects "''u''" "Many [''p1'', ''p2'']"]
  note t' = getProjectListById_scope [of example_projects "''w''" "One ''p1''"]
  have "getProjectListById example_projects (Some ''u'') (Many [''p1'', ''p2'']) = [''p1'']"
    using t by blast
  moreover have "\<exists>p \<in> set example_projects. p_id p = ''p1'' \<and> may_see ''u'' p"
    using t calculation by simp
  moreover have "getProjectListById example_projects (Some ''w'') (One ''p1'') = []"
    using t' e by blast
  ultimately show ?thesis using n by simp
qed

section \<open>Verification: report query builders\<close>

subsection \<open>The match stage of the total-hours pipeline\<close>

text \<open>
  The second stage of the total-hours pipeline, by cases: it is the empty object when the
  period is absent, empty or \<^verbatim>\<open>"all"\<close> and \<^verbatim>\<open>userId\<close> does not include \<^verbatim>\<open>"all"\<close>;
  in every other case it is a \<^verbatim>\<open>$match\<close> on the project list, with the user clause
  exactly when \<^verbatim>\<open>userId\<close> does not include \<^verbatim>\<open>"all"\<close>.
\<close>

lemma buildTotalHours_without_match:
  assumes "period = None \<or> period = Some [] \<or> period = Some ''all''"
    and "\<not> js_includes userId ''all''"
  shows "buildTotalHoursForPeriodSelector Projects uid periodToDates
      projectId period dates userId customer limit page ! 1 = Empty_object"
  using assms
  by (auto simp add: buildTotalHoursForPeriodSelector_def truthy_string_def Let_def)

lemma buildTotalHours_with_match:
  assumes "\<not> ((period = None \<or> period = Some [] \<or> period = Some ''all'')
      \<and> \<not> js_includes userId ''all'')"
  shows "\<exists>d. buildTotalHoursForPeriodSelector Projects uid periodToDates
      projectId period dates userId customer limit page ! 1 =
     Match \<lparr>m_projectId_in = projectList_of Projects uid customer projectId, m_date = d,
            m_userId = (if js_includes userId ''all'' then None else Some userId)\<rparr>"
proof (cases period)
  case None
  then show ?thesis
    using assms by (simp add: buildTotalHoursForPeriodSelector_def truthy_string_def Let_def)
next
  case (Some p)
  then show ?thesis
    using assms by (auto simp add: buildTotalHoursForPeriodSelector_def truthy_string_def Let_def)
qed

text \<open>
  Claim C2 says that the pipeline of \<^verbatim>\<open>buildTotalHoursForPeriodSelector\<close> always has a
  \<^verbatim>\<open>$match\<close> stage on the project list, with a user clause exactly when \<^verbatim>\<open>userId\<close> is
  not \<^verbatim>\<open>"all"\<close>, also when the period is \<^verbatim>\<open>"all"\<close> or absent. The code differs: for the
  period \<^verbatim>\<open>"all"\<close> and the user \<^verbatim>\<open>"u1"\<close> the second stage is the empty object
  \<^verbatim>\<open>{}\<close> and no stage matches on projects or users, whatever the collection holds.
  \<^verbatim>\<open>buildDailyHoursSelector\<close>, given the same arguments, has the stage with its user
  clause.
\<close>

theorem buildTotalHours_drops_match:
  "buildTotalHoursForPeriodSelector Projects uid periodToDates
      (One ''all'') (Some ''all'') dates (One ''u1'') (One ''all'') None None =
     [AddFields_convertedHours, Empty_object,
      Group [''userId'', ''projectId''] ''totalHours'' ''convertedHours'',
      Sort_date_descending, Skip (Num 0)]
   \<and> buildDailyHoursSelector Projects uid periodToDates
      (One ''all'') (Some ''all'') dates (One ''u1'') (One ''all'') None None =
     [Match \<lparr>m_projectId_in = getProjectListById Projects uid (One ''all''),
             m_date = None, m_userId = Some (One ''u1'')\<rparr>,
      Group [''userId'', ''projectId'', ''date''] ''totalHours'' ''hours'',
      Sort_date_descending, Skip (Num 0)]"
  by (simp add: buildTotalHoursForPeriodSelector_def buildDailyHoursSelector_def
      matchSelector_of_def projectList_of_def skipSelector_def truthy_string_def
      truthy_number_def greater_than_zero_def js_includes_def Let_def)

subsection \<open>The project scope of the detailed query\<close>

text \<open>
  Claim C3 as stated (whenever \<^verbatim>\<open>customer\<close> is not \<^verbatim>\<open>"all"\<close> the projects come from
  \<^verbatim>\<open>getProjectListByCustomer\<close>, whatever \<^verbatim>\<open>projectId\<close> is) fails: for user \<^verbatim>\<open>v\<close>,
  project \<^verbatim>\<open>p2\<close> and customer \<^verbatim>\<open>c1\<close> the query is on \<^verbatim>\<open>["p2"]\<close>, and the customer
  has no project that \<^verbatim>\<open>v\<close> may see.
\<close>

theorem detailed_customer_counterexample:
  "\<not> js_includes (a_customer example_arguments) ''all''
   \<and> q_projectId_in (base_query (fst (buildDetailedTimeEntriesForPeriodSelector
         example_projects (Some ''v'') (\<lambda>p. example_dates) id example_arguments))) = [''p2'']
   \<and> map p_id (getProjectListByCustomer example_projects (Some ''v'')
         (a_customer example_arguments)) = []"
  by (simp add: buildDetailedTimeEntriesForPeriodSelector_def example_arguments_def
      example_projects_def getProjectListById_def getProjectListByCustomer_def
      js_includes_def id_selected_def customer_selected_def owner_public_or_team_def
      archived_false_or_missing_def truthy_string_def truthy_number_def Let_def)

text \<open>
  Claim C3, amended. The project scope of the base query of
  \<^verbatim>\<open>buildDetailedTimeEntriesForPeriodSelector\<close> comes from \<^verbatim>\<open>getProjectListByCustomer\<close>
  when \<^verbatim>\<open>customer\<close> does not include \<^verbatim>\<open>"all"\<close> and \<^verbatim>\<open>projectId\<close> includes
  \<^verbatim>\<open>"all"\<close>; in every other case it comes from \<^verbatim>\<open>getProjectListById(projectId)\<close>.
\<close>

theorem detailed_project_scope:
  "q_projectId_in (base_query (fst (buildDetailedTimeEntriesForPeriodSelector
       Projects uid periodToDates rewriteFilters args))) =
     (if \<not> js_includes (a_customer args) ''all'' \<and> js_includes (a_projectId args) ''all''
      then map p_id (getProjectListByCustomer Projects uid (a_customer args))
      else getProjectListById Projects uid (a_projectId args))"
  by (simp add: buildDetailedTimeEntriesForPeriodSelector_def Let_def split: option.splits)

text \<open>
  The amended C3 for user \<^verbatim>\<open>u\<close>: customer \<^verbatim>\<open>c1\<close> with all projects gives the project of
  the customer, and project \<^verbatim>\<open>p1\<close> with customer \<^verbatim>\<open>c2\<close> gives the named project.
\<close>

theorem detailed_project_scope_witness:
  "q_projectId_in (base_query (fst (buildDetailedTimeEntriesForPeriodSelector
       example_projects (Some ''u'') (\<lambda>p. example_dates) id
       (example_arguments\<lparr>a_projectId := Many [''all'']\<rparr>)))) = [''p1'']
   \<and> q_projectId_in (base_query (fst (buildDetailedTimeEntriesForPeriodSelector
       example_projects (Some ''u'') (\<lambda>p. example_dates) id
       (example_arguments\<lparr>a_projectId := One ''p1'', a_customer := One ''c2''\<rparr>)))) = [''p1'']"
  using detailed_project_scope [of example_projects "Some ''u''" "\<lambda>p. example_dates" id
      "example_arguments\<lparr>a_projectId := Many [''all'']\<rparr>"]
    detailed_project_scope [of example_projects "Some ''u''" "\<lambda>p. example_dates" id
      "example_arguments\<lparr>a_projectId := One ''p1'', a_customer := One ''c2''\<rparr>"]
  by (simp add: example_arguments_def
      example_projects_def getProjectListById_def getProjectListByCustomer_def
      js_includes_def id_selected_def customer_selected_def owner_public_or_team_def
      archived_false_or_missing_def)

subsection \<open>Pagination\<close>

lemma skipSelector_paged: "skipSelector page limit = Skip (paged_skip page limit)"
  by (cases page; cases limit)
     (simp_all add: skipSelector_def paged_skip_def truthy_number_def to_number_def)

text \<open>
  Claim C9. For every builder the skip value is \<open>(page - 1) * limit\<close> when a page is given
  (a number other than 0) and 0 otherwise, and a limit is included exactly when
  \<open>limit > 0\<close>. The three pipelines have exactly one \<^verbatim>\<open>$skip\<close> stage, with that value,
  and a \<^verbatim>\<open>$limit\<close> stage exactly when \<open>limit > 0\<close>. The options of
  \<^verbatim>\<open>buildDetailedTimeEntriesForPeriodSelector\<close> skip that many documents (the key
  \<^verbatim>\<open>skip\<close> is set when a page is given and left out otherwise) and have \<^verbatim>\<open>limit\<close>
  exactly when \<open>limit > 0\<close>. Page 2 with limit 10 skips 10.
\<close>

theorem pagination:
  "skip_stages (buildTotalHoursForPeriodSelector Projects uid periodToDates
      projectId period dates userId customer limit page) = [paged_skip page limit]
   \<and> limit_stages (buildTotalHoursForPeriodSelector Projects uid periodToDates
      projectId period dates userId customer limit page)
       = (if greater_than_zero limit then [limit] else [])
   \<and> skip_stages (buildDailyHoursSelector Projects uid periodToDates
      projectId period dates userId customer limit page) = [paged_skip page limit]
   \<and> limit_stages (buildDailyHoursSelector Projects uid periodToDates
      projectId period dates userId customer limit page)
       = (if greater_than_zero limit then [limit] else [])
   \<and> skip_stages (buildworkingTimeSelector Projects uid periodToDates
      projectId period dates userId limit page) = [paged_skip page limit]
   \<and> limit_stages (buildworkingTimeSelector Projects uid periodToDates
      projectId period dates userId limit page)
       = (if greater_than_zero limit then [limit] else [])
   \<and> skip_of (snd (buildDetailedTimeEntriesForPeriodSelector
        Projects uid periodToDates rewriteFilters args))
       = paged_skip (a_page args) (a_limit args)
   \<and> (o_skip (snd (buildDetailedTimeEntriesForPeriodSelector
        Projects uid periodToDates rewriteFilters args)) = None)
       = (a_page args = None \<or> a_page args = Some 0)
   \<and> o_limit (snd (buildDetailedTimeEntriesForPeriodSelector
        Projects uid periodToDates rewriteFilters args))
       = (if greater_than_zero (a_limit args) then a_limit args else None)
   \<and> paged_skip (Some 2) (Some 10) = Num 10"
proof (intro conjI)
  show "skip_stages (buildTotalHoursForPeriodSelector Projects uid periodToDates
      projectId period dates userId customer limit page) = [paged_skip page limit]"
    by (simp add: buildTotalHoursForPeriodSelector_def skipSelector_paged skip_stages_def Let_def)
  show "limit_stages (buildTotalHoursForPeriodSelector Projects uid periodToDates
      projectId period dates userId customer limit page)
       = (if greater_than_zero limit then [limit] else [])"
    by (simp add: buildTotalHoursForPeriodSelector_def skipSelector_paged limit_stages_def Let_def)
  show "skip_stages (buildDailyHoursSelector Projects uid periodToDates
      projectId period dates userId customer limit page) = [paged_skip page limit]"
    by (simp add: buildDailyHoursSelector_def matchSelector_of_def skipSelector_paged
        skip_stages_def Let_def)
  show "limit_stages (buildDailyHoursSelector Projects uid periodToDates
      projectId period dates userId customer limit page)
       = (if greater_than_zero limit then [limit] else [])"
    by (simp add: buildDailyHoursSelector_def matchSelector_of_def skipSelector_paged
        limit_stages_def Let_def)
  show "skip_stages (buildworkingTimeSelector Projects uid periodToDates
      projectId period dates userId limit page) = [paged_skip page limit]"
    by (simp add: buildworkingTimeSelector_def matchSelector_of_def skipSelector_paged
        skip_stages_def Let_def)
  show "limit_stages (buildworkingTimeSelector Projects uid periodToDates
      projectId period dates userId limit page)
       = (if greater_than_zero limit then [limit] else [])"
    by (simp add: buildworkingTimeSelector_def matchSelector_of_def skipSelector_paged
        limit_stages_def Let_def)
  show "skip_of (snd (buildDetailedTimeEntriesForPeriodSelector
        Projects uid periodToDates rewriteFilters args))
       = paged_skip (a_page args) (a_limit args)"
    by (cases "a_page args"; cases "a_limit args")
       (simp_all add: buildDetailedTimeEntriesForPeriodSelector_def skip_of_def paged_skip_def
          truthy_number_def to_number_def Let_def)
  show "(o_skip (snd (buildDetailedTimeEntriesForPeriodSelector
        Projects uid periodToDates rewriteFilters args)) = None)
       = (a_page args = None \<or> a_page args = Some 0)"
    by (cases "a_page args")
       (simp_all add: buildDetailedTimeEntriesForPeriodSelector_def truthy_number_def Let_def)
  show "o_limit (snd (buildDetailedTimeEntriesForPeriodSelector
        Projects uid periodToDates rewriteFilters args))
       = (if greater_than_zero (a_limit args) then a_limit args else None)"
    by (cases "a_limit args")
       (auto simp add: buildDetailedTimeEntriesForPeriodSelector_def
          truthy_number_def greater_than_zero_def Let_def)
  show "paged_skip (Some 2) (Some 10) = Num 10"
    by (simp add: paged_skip_def)
qed

section \<open>Verification: the search text of the detailed query\<close>

subsection \<open>The escaped text is read as literal characters\<close>

lemma escaped_class_backslash: "escaped_class backslash"
  by (simp add: escaped_class_def)

lemma metacharacter_escaped: "metacharacter c \<Longrightarrow> escaped_class c"
  by (auto simp: metacharacter_def escaped_class_def)

lemma escaped_not_alphanumeric: "escaped_class c \<Longrightarrow> \<not> alphanumeric c"
  by (auto simp: escaped_class_def alphanumeric_def backslash_def js_whitespace_def Let_def)

lemma tokenize_escape_append:
  "tokenize (escape_search s @ rest) = map Literal s @ tokenize rest"
proof (induction s)
  case Nil
  show ?case by (simp add: escape_search_def)
next
  case (Cons c s)
  have e: "escape_search (c # s) = (if escaped_class c then [backslash, c] else [c]) @ escape_search s"
    by (simp add: escape_search_def)
  show ?case
  proof (cases "escaped_class c")
    case True
    then show ?thesis
      using Cons escaped_not_alphanumeric [OF True] by (simp add: e)
  next
    case False
    then have "c \<noteq> backslash" "\<not> metacharacter c"
      using escaped_class_backslash metacharacter_escaped by auto
    then show ?thesis using Cons False by (simp add: e)
  qed
qed

lemma tokenize_escape: "tokenize (escape_search s) = map Literal s"
  using tokenize_escape_append [of s "[]"] by simp


lemma tokenize_dot_star:
  "tokenize (CHR ''.'' # CHR ''*'' # rest) = Meta CHR ''.'' # Meta CHR ''*'' # tokenize rest"
  by (simp add: backslash_def metacharacter_def)

lemma tokenize_pattern:
  "tokenize (''.*'' @ escape_search s @ ''.*'') =
     [Meta CHR ''.'', Meta CHR ''*''] @ map Literal s @ [Meta CHR ''.'', Meta CHR ''*'']"
proof -
  have 1: "tokenize (''.*'' @ escape_search s @ ''.*'') =
      Meta CHR ''.'' # Meta CHR ''*'' # tokenize (escape_search s @ ''.*'')"
    using tokenize_dot_star [of "escape_search s @ ''.*''"] by simp
  have 2: "tokenize (escape_search s @ ''.*'') = map Literal s @ tokenize ''.*''"
    by (rule tokenize_escape_append)
  have 3: "tokenize ''.*'' = [Meta CHR ''.'', Meta CHR ''*'']"
    using tokenize_dot_star [of "[]"] by simp
  show ?thesis unfolding 1 2 3 by simp
qed

lemma parse_items_literals:
  "parse_items (map Literal s @ [Meta CHR ''.'', Meta CHR ''*'']) =
     Some (map (\<lambda>c. Once (Character c)) s @ [Star Any_character])"
proof (induction s)
  case Nil
  show ?case by simp
next
  case (Cons c s)
  then show ?case by (cases s) simp_all
qed

lemma parse_items_pattern:
  "parse_items (tokenize (''.*'' @ escape_search s @ ''.*'')) =
     Some (Star Any_character # map (\<lambda>c. Once (Character c)) s @ [Star Any_character])"
proof -
  have "parse_items (Meta CHR ''.'' # Meta CHR ''*'' # ts) =
      map_option ((#) (Star Any_character)) (parse_items ts)" for ts
    by simp
  then show ?thesis
    unfolding tokenize_pattern by (simp only: append_Cons append_Nil parse_items_literals) simp
qed

lemma match_here_star_end: "match_here ci [Star a] t"
  by (induction t) simp_all

lemma match_here_literals:
  "match_here True (map (\<lambda>c. Once (Character c)) s @ [Star a]) t
     = (take (length s) (toLowerCase t) = toLowerCase s)"
proof (induction s arbitrary: t)
  case Nil
  show ?case by (simp add: match_here_star_end toLowerCase_def)
next
  case (Cons c s)
  show ?case
  proof (cases t)
    case Nil
    then show ?thesis by (simp add: toLowerCase_def)
  next
    case (Cons d t')
    then show ?thesis using Cons.IH [of t'] by (auto simp: toLowerCase_def)
  qed
qed

lemma match_here_star_anywhere: "match_here ci (Star a # r) t \<Longrightarrow> match_anywhere ci r t"
  by (induction t) auto

lemma match_anywhere_star: "match_anywhere ci (Star a # r) t = match_anywhere ci r t"
proof (induction t)
  case Nil
  show ?case by simp
next
  case (Cons d t)
  then show ?case using match_here_star_anywhere [of ci a r t] by auto
qed

lemma match_anywhere_literals:
  "match_anywhere True (map (\<lambda>c. Once (Character c)) s @ [Star a]) t
     = string_includes (toLowerCase t) (toLowerCase s)"
proof (induction t)
  case Nil
  show ?case by (simp add: match_here_literals toLowerCase_def)
next
  case (Cons d t)
  have "match_here True (map (\<lambda>c. Once (Character c)) s @ [Star a]) (d # t)
      = (take (length s) (toLowerCase (d # t)) = toLowerCase s)"
    by (rule match_here_literals)
  then show ?case using Cons by (simp add: toLowerCase_def)
qed

lemma regex_matches_pattern:
  "regex_matches (''.*'' @ escape_search s @ ''.*'') ''i'' task
     = Some (string_includes (toLowerCase task) (toLowerCase s))"
proof -
  have "CHR ''i'' \<in> set ''i''" by simp
  then show ?thesis
    unfolding regex_matches_def parse_items_pattern
    by (simp only: option.map match_anywhere_star match_anywhere_literals simp_thms)
qed

lemma string_includes_Nil: "string_includes t []"
  by (induction t) simp_all

lemma detailed_task_clause:
  "q_task (base_query (fst (buildDetailedTimeEntriesForPeriodSelector
       Projects uid periodToDates rewriteFilters (args\<lparr>a_search := Some s\<rparr>)))) =
     (if s = [] then None else Some (''.*'' @ escape_search s @ ''.*'', ''i''))"
  by (simp add: buildDetailedTimeEntriesForPeriodSelector_def truthy_string_def Let_def
      split: option.splits)

text \<open>
  Claim C5. For every search string \<open>s\<close>, the pattern that
  \<^verbatim>\<open>buildDetailedTimeEntriesForPeriodSelector\<close> builds from \<open>s\<close> has every metacharacter
  of \<open>s\<close> escaped: the escaped text is read back as the literal characters of \<open>s\<close>. So
  the query selects exactly the tasks that contain \<open>s\<close> as a substring, ignoring case. In
  particular the search \<^verbatim>\<open>"a.b"\<close> does not select the task \<^verbatim>\<open>"axb"\<close>, and it selects
  \<^verbatim>\<open>"Plan A.B"\<close>.
\<close>

theorem search_is_literal:
  "tokenize (escape_search s) = map Literal s
   \<and> task_selected (base_query (fst (buildDetailedTimeEntriesForPeriodSelector
         Projects uid periodToDates rewriteFilters (args\<lparr>a_search := Some s\<rparr>)))) task
       = string_includes (toLowerCase task) (toLowerCase s)
   \<and> \<not> task_selected (base_query (fst (buildDetailedTimeEntriesForPeriodSelector
         Projects uid periodToDates rewriteFilters (args\<lparr>a_search := Some ''a.b''\<rparr>)))) ''axb''
   \<and> task_selected (base_query (fst (buildDetailedTimeEntriesForPeriodSelector
         Projects uid periodToDates rewriteFilters (args\<lparr>a_search := Some ''a.b''\<rparr>))))
         ''Plan A.B''"
proof -
  have sel: "task_selected (base_query (fst (buildDetailedTimeEntriesForPeriodSelector
         Projects uid periodToDates rewriteFilters (args\<lparr>a_search := Some x\<rparr>)))) t
       = string_includes (toLowerCase t) (toLowerCase x)" for x t
  proof (cases "x = []")
    case True
    then show ?thesis
      by (simp add: task_selected_def detailed_task_clause string_includes_Nil toLowerCase_def)
  next
    case False
    then have "q_task (base_query (fst (buildDetailedTimeEntriesForPeriodSelector
         Projects uid periodToDates rewriteFilters (args\<lparr>a_search := Some x\<rparr>))))
       = Some (''.*'' @ escape_search x @ ''.*'', ''i'')"
      by (simp only: detailed_task_clause if_False)
    then have "task_selected (base_query (fst (buildDetailedTimeEntriesForPeriodSelector
         Projects uid periodToDates rewriteFilters (args\<lparr>a_search := Some x\<rparr>)))) t
       = (regex_matches (''.*'' @ escape_search x @ ''.*'') ''i'' t = Some True)"
      by (simp only: task_selected_def option.case prod.case)
    also have "\<dots> = string_includes (toLowerCase t) (toLowerCase x)"
      by (simp only: regex_matches_pattern option.inject simp_thms)
    finally show ?thesis .
  qed
  have no: "\<not> string_includes (toLowerCase ''axb'') (toLowerCase ''a.b'')"
    by code_simp
  have yes: "string_includes (toLowerCase ''Plan A.B'') (toLowerCase ''a.b'')"
    by code_simp
  show ?thesis using sel no yes by (simp add: tokenize_escape)
qed

section \<open>Verification: the authentication gate\<close>

text \<open>
  Claim C4 as stated (the check throws exactly when the actor is absent, unknown or
  inactive) fails for an unknown actor: with a \<^verbatim>\<open>userId\<close> that has no user document the
  check returns normally.
\<close>

theorem unknown_user_counterexample:
  "Map.empty ''ghost'' = (None :: user option)
   \<and> checkAuthentication Map.empty \<lparr>c_userId = Some ''ghost''\<rparr> = Inr ()"
  by (simp add: checkAuthentication_def findOne_user_def truthy_string_def)

text \<open>
  Claim C4, amended. \<^verbatim>\<open>checkAuthentication(context)\<close> throws its error exactly when the
  actor is absent (no \<^verbatim>\<open>userId\<close>, or an empty one) or the document of the actor exists and
  is marked inactive, and it throws nothing else. For a method wrapped by
  \<^verbatim>\<open>authenticationMixin\<close>: when the check throws, the call ends with that error and the
  state of the server as it was, whatever the wrapped \<^verbatim>\<open>run\<close> would do; when the check
  passes, the call is the call of the wrapped \<^verbatim>\<open>run\<close>.
\<close>

theorem authentication_gate:
  "(checkAuthentication users ctx = Inl auth_error) =
     (c_userId ctx = None \<or> c_userId ctx = Some []
      \<or> (\<exists>uid usr. c_userId ctx = Some uid \<and> users uid = Some usr
            \<and> u_inactive usr = Some True))
   \<and> (checkAuthentication users ctx = Inl auth_error
        \<or> checkAuthentication users ctx = Inr ())
   \<and> (checkAuthentication (w_users w) ctx = Inl e \<longrightarrow>
        authenticationMixin runFunc ctx args w = (Inl e, w))
   \<and> (checkAuthentication (w_users w) ctx = Inr () \<longrightarrow>
        authenticationMixin runFunc ctx args w = runFunc ctx args w)"
proof (intro conjI impI)
  show "(checkAuthentication users ctx = Inl auth_error) =
     (c_userId ctx = None \<or> c_userId ctx = Some []
      \<or> (\<exists>uid usr. c_userId ctx = Some uid \<and> users uid = Some usr
            \<and> u_inactive usr = Some True))"
    by (cases "c_userId ctx")
       (auto simp add: checkAuthentication_def findOne_user_def truthy_string_def
          split: option.splits)
  show "checkAuthentication users ctx = Inl auth_error
        \<or> checkAuthentication users ctx = Inr ()"
    by (simp add: checkAuthentication_def)
next
  assume "checkAuthentication (w_users w) ctx = Inl e"
  then show "authenticationMixin runFunc ctx args w = (Inl e, w)"
    by (simp add: authenticationMixin_def)
next
  assume "checkAuthentication (w_users w) ctx = Inr ()"
  then show "authenticationMixin runFunc ctx args w = runFunc ctx args w"
    by (simp add: authenticationMixin_def)
qed

text \<open>
  The amended C4 on the example server: the inactive user \<^verbatim>\<open>u1\<close> is refused and the users
  are still there; for the unknown \<^verbatim>\<open>u2\<close> the body runs and deletes them.
\<close>

theorem authentication_gate_witness:
  "checkAuthentication (w_users example_world) \<lparr>c_userId = Some ''u1''\<rparr> = Inl auth_error
   \<and> authenticationMixin delete_all_users \<lparr>c_userId = Some ''u1''\<rparr> () example_world
       = (Inl auth_error, example_world)
   \<and> delete_all_users \<lparr>c_userId = Some ''u1''\<rparr> () example_world
       \<noteq> (Inl auth_error, example_world)
   \<and> checkAuthentication (w_users example_world) \<lparr>c_userId = Some ''u2''\<rparr> = Inr ()
   \<and> authenticationMixin delete_all_users \<lparr>c_userId = Some ''u2''\<rparr> () example_world
       = (Inr (), \<lparr>w_users = Map.empty\<rparr>)"
proof -
  note g1 = authentication_gate [of "w_users example_world" "\<lparr>c_userId = Some ''u1''\<rparr>"
      example_world auth_error delete_all_users "()"]
  note g2 = authentication_gate [of "w_users example_world" "\<lparr>c_userId = Some ''u2''\<rparr>"
      example_world auth_error delete_all_users "()"]
  have "\<exists>uid usr. c_userId \<lparr>c_userId = Some ''u1''\<rparr> = Some uid
      \<and> w_users example_world uid = Some usr \<and> u_inactive usr = Some True"
    by (simp add: example_world_def example_user_def)
  with g1 have c: "checkAuthentication (w_users example_world) \<lparr>c_userId = Some ''u1''\<rparr>
      = Inl auth_error"
    by blast
  with g1 have m: "authenticationMixin delete_all_users \<lparr>c_userId = Some ''u1''\<rparr> ()
      example_world = (Inl auth_error, example_world)"
    by blast
  have "\<not> (c_userId \<lparr>c_userId = Some ''u2''\<rparr> = None
      \<or> c_userId \<lparr>c_userId = Some ''u2''\<rparr> = Some []
      \<or> (\<exists>uid usr. c_userId \<lparr>c_userId = Some ''u2''\<rparr> = Some uid
            \<and> w_users example_world uid = Some usr \<and> u_inactive usr = Some True))"
    by (simp add: example_world_def)
  with g2 have c2: "checkAuthentication (w_users example_world) \<lparr>c_userId = Some ''u2''\<rparr>
      = Inr ()"
    by blast
  with g2 have m2: "authenticationMixin delete_all_users \<lparr>c_userId = Some ''u2''\<rparr> ()
      example_world = delete_all_users \<lparr>c_userId = Some ''u2''\<rparr> () example_world"
    by blast
  have d: "delete_all_users \<lparr>c_userId = Some ''u1''\<rparr> () example_world
       \<noteq> (Inl auth_error, example_world)"
    by (simp add: delete_all_users_def)
  have d2: "delete_all_users \<lparr>c_userId = Some ''u2''\<rparr> () example_world
       = (Inr (), \<lparr>w_users = Map.empty\<rparr>)"
    by (simp add: delete_all_users_def example_world_def)
  show ?thesis using c m d c2 m2 d2 by simp
qed

section \<open>Verification: the working-time mapper\<close>

text \<open>
  When the profile of the user has no start time, the mapper works with the promise of the
  global setting: the end time is invalid and the break fields are empty, whatever the
  global settings hold.
\<close>

lemma workingTimeEntriesMapper_without_start:
  assumes "Option.bind (Option.bind (users (e_userId entry)) u_profile) pr_dailyStartTime = None"
  shows "endTime (workingTimeEntriesMapper users Globalsettings entry) = ''Invalid Date''"
    and "breakStartTime (workingTimeEntriesMapper users Globalsettings entry) = []"
    and "breakEndTime (workingTimeEntriesMapper users Globalsettings entry) = []"
  using assms by (simp_all add: workingTimeEntriesMapper_def profile_or_global_def Let_def)

text \<open>
  When the profile holds the four settings, the mapper computes what the specification
  describes.
\<close>

lemma workingTimeEntriesMapper_profile:
  assumes "users (e_userId entry) = Some u" and "u_profile u = Some p"
    and "pr_dailyStartTime p = Some start" and "start \<noteq> []"
    and "pr_breakStartTime p = Some break" and "break \<noteq> []"
    and "pr_breakDuration p = Some duration" and "duration \<noteq> 0"
    and "pr_regularWorkingTime p = Some regular" and "regular \<noteq> 0"
    and "finish = (if truthy_gvalue (getGlobalSetting_value Globalsettings ''addBreakToWorkingTime'')
          then add_hours (add_hours (parse_HH_mm start) (Num (e_totalTime entry))) (Num duration)
          else add_hours (parse_HH_mm start) (Num (e_totalTime entry)))"
  shows "endTime (workingTimeEntriesMapper users Globalsettings entry) = format_HH_mm finish"
    and "breakStartTime (workingTimeEntriesMapper users Globalsettings entry) =
      (if isAfter finish (parse_HH_mm break) then format_HH_mm (parse_HH_mm break) else [])"
    and "breakEndTime (workingTimeEntriesMapper users Globalsettings entry) =
      (if isAfter finish (parse_HH_mm break)
       then format_HH_mm (add_hours (parse_HH_mm break) (Num duration)) else [])"
    and "regularWorkingTimeDifference (workingTimeEntriesMapper users Globalsettings entry) =
      Num (e_totalTime entry - regular)"
  using assms by (simp_all add: workingTimeEntriesMapper_def profile_or_global_def Let_def)

text \<open>
  Claim C6 says that for every record and for the settings of the user, or the global ones
  as a fallback, the end time is the start time plus the total time (plus the break when
  it is added), the break fields are filled exactly when the end falls after the start of
  the break, and the difference is the total time minus the regular working time; for the
  start 09:00, four hours and a break at 12:00 for one hour the end is \<^verbatim>\<open>"13:00"\<close> with
  the break from \<^verbatim>\<open>"12:00"\<close> to \<^verbatim>\<open>"13:00"\<close>, and for two hours it is \<^verbatim>\<open>"11:00"\<close>
  without a break. The code differs on the fallback: for \<^verbatim>\<open>ann\<close>, whose settings are the
  global ones, the end time is \<^verbatim>\<open>"Invalid Date"\<close>, the break fields are empty and the
  difference is \<^verbatim>\<open>NaN\<close>. For \<^verbatim>\<open>bob\<close>, with the same settings in the profile, the two
  examples come out as the claim says.
\<close>

theorem workingTimeEntriesMapper_global_fallback:
  "workingTimeEntriesMapper [''ann'' \<mapsto> user_without_settings] global_settings
      \<lparr>e_userId = ''ann'', e_date = 0, e_totalTime = 4\<rparr> =
     \<lparr>date = 0, resource = Some ''Ann'', startTime = Promise,
      breakStartTime = [], breakEndTime = [], endTime = ''Invalid Date'',
      totalTime = 4, regularWorkingTime = NaN, regularWorkingTimeDifference = NaN\<rparr>
   \<and> workingTimeEntriesMapper [''bob'' \<mapsto> user_with_settings] global_settings
      \<lparr>e_userId = ''bob'', e_date = 0, e_totalTime = 4\<rparr> =
     \<lparr>date = 0, resource = Some ''Bob'', startTime = Value ''09:00'',
      breakStartTime = ''12:00'', breakEndTime = ''13:00'', endTime = ''13:00'',
      totalTime = 4, regularWorkingTime = Num 8, regularWorkingTimeDifference = Num (- 4)\<rparr>
   \<and> workingTimeEntriesMapper [''bob'' \<mapsto> user_with_settings] global_settings
      \<lparr>e_userId = ''bob'', e_date = 0, e_totalTime = 2\<rparr> =
     \<lparr>date = 0, resource = Some ''Bob'', startTime = Value ''09:00'',
      breakStartTime = [], breakEndTime = [], endTime = ''11:00'',
      totalTime = 2, regularWorkingTime = Num 8, regularWorkingTimeDifference = Num (- 6)\<rparr>"
  by code_simp

section \<open>Verification: string similarity\<close>

subsection \<open>The recursion computes the least alignment cost\<close>

lemma lev_Nil2: "lev xs [] = length xs"
  by (cases xs) simp_all

lemma edit_cost_Nil1: "edit_cost [] ys (length ys)"
  by (induction ys) (auto intro: edit_cost.intros)

lemma edit_cost_Nil2: "edit_cost xs [] (length xs)"
  by (induction xs) (auto intro: edit_cost.intros)

lemma edit_cost_lev: "edit_cost xs ys (lev xs ys)"
proof (induction xs ys rule: lev.induct)
  case (1 ys)
  show ?case by (simp add: edit_cost_Nil1)
next
  case (2 x xs)
  show ?case using edit_cost_Nil2 [of "x # xs"] by simp
next
  case (3 x xs y ys)
  let ?d = "Suc (lev xs (y # ys))" and ?i = "Suc (lev (x # xs) ys)"
  let ?s = "lev xs ys + (if x = y then 0 else 1)"
  have d: "edit_cost (x # xs) (y # ys) ?d" using 3 by (auto intro: edit_cost.deletion)
  have i: "edit_cost (x # xs) (y # ys) ?i" using 3 by (auto intro: edit_cost.insertion)
  have s: "edit_cost (x # xs) (y # ys) ?s"
    using 3 by (auto intro: edit_cost.substitution edit_cost.keep)
  have "lev (x # xs) (y # ys) = ?d \<or> lev (x # xs) (y # ys) = ?i \<or> lev (x # xs) (y # ys) = ?s"
    by (simp add: min_def)
  with d i s show ?case by metis
qed

lemma lev_deletion: "lev (x # xs) ys \<le> Suc (lev xs ys)"
  by (cases ys) (simp_all add: lev_Nil2)

lemma lev_insertion: "lev xs (y # ys) \<le> Suc (lev xs ys)"
  by (cases xs) simp_all

lemma lev_least: "edit_cost xs ys n \<Longrightarrow> lev xs ys \<le> n"
proof (induction rule: edit_cost.induct)
  case finished
  show ?case by simp
next
  case (deletion xs ys n x)
  then show ?case using lev_deletion [of x xs ys] by simp
next
  case (insertion xs ys n y)
  then show ?case using lev_insertion [of xs y ys] by simp
next
  case (substitution xs ys n x y)
  then show ?case by (simp add: min_def)
next
  case (keep xs ys n x)
  then show ?case by (simp add: min_def)
qed

lemma edit_cost_snoc_deletion: "edit_cost xs ys n \<Longrightarrow> edit_cost (xs @ [x]) ys (Suc n)"
  by (induction rule: edit_cost.induct) (auto intro: edit_cost.intros)

lemma edit_cost_snoc_insertion: "edit_cost xs ys n \<Longrightarrow> edit_cost xs (ys @ [y]) (Suc n)"
  by (induction rule: edit_cost.induct) (auto intro: edit_cost.intros)

lemma edit_cost_snoc_substitution:
  "edit_cost xs ys n \<Longrightarrow> edit_cost (xs @ [x]) (ys @ [y]) (Suc n)"
  by (induction rule: edit_cost.induct) (auto intro: edit_cost.intros)

lemma edit_cost_snoc_keep: "edit_cost xs ys n \<Longrightarrow> edit_cost (xs @ [x]) (ys @ [x]) n"
  by (induction rule: edit_cost.induct) (auto intro: edit_cost.intros)

lemma edit_cost_rev: "edit_cost xs ys n \<Longrightarrow> edit_cost (rev xs) (rev ys) n"
proof (induction rule: edit_cost.induct)
  case finished
  show ?case by (simp add: edit_cost.finished)
next
  case (deletion xs ys n x)
  then show ?case by (simp add: edit_cost_snoc_deletion)
next
  case (insertion xs ys n y)
  then show ?case by (simp add: edit_cost_snoc_insertion)
next
  case (substitution xs ys n x y)
  then show ?case by (simp add: edit_cost_snoc_substitution)
next
  case (keep xs ys n x)
  then show ?case by (simp add: edit_cost_snoc_keep)
qed

lemma edit_cost_sym: "edit_cost xs ys n \<Longrightarrow> edit_cost ys xs n"
  by (induction rule: edit_cost.induct) (auto intro: edit_cost.intros)

lemma lev_rev_le: "lev (rev xs) (rev ys) \<le> lev xs ys"
  by (rule lev_least) (rule edit_cost_rev, rule edit_cost_lev)

lemma lev_rev: "lev (rev xs) (rev ys) = lev xs ys"
  using lev_rev_le [of xs ys] lev_rev_le [of "rev xs" "rev ys"] by simp

lemma lev_sym_le: "lev ys xs \<le> lev xs ys"
  by (rule lev_least) (rule edit_cost_sym, rule edit_cost_lev)

lemma lev_sym: "lev xs ys = lev ys xs"
  using lev_sym_le [of xs ys] lev_sym_le [of ys xs] by simp

lemma edit_cost_drop_target:
  "edit_cost xs zs n \<Longrightarrow> zs = y # ys \<Longrightarrow> \<exists>m \<le> Suc n. edit_cost xs ys m"
proof (induction arbitrary: y ys rule: edit_cost.induct)
  case finished
  then show ?case by simp
next
  case (deletion xs zs n x)
  then obtain m where "m \<le> Suc n" "edit_cost xs ys m" by blast
  then have "Suc m \<le> Suc (Suc n) \<and> edit_cost (x # xs) ys (Suc m)"
    by (simp add: edit_cost.deletion)
  then show ?case by blast
next
  case (insertion xs zs n z)
  then have "edit_cost xs ys n" by simp
  then show ?case by (meson le_SucI le_refl)
next
  case (substitution xs zs n x z)
  then have "edit_cost (x # xs) ys (Suc n)" by (simp add: edit_cost.deletion)
  then show ?case by (meson le_SucI le_refl)
next
  case (keep xs zs n x)
  then have "edit_cost (x # xs) ys (Suc n)" by (simp add: edit_cost.deletion)
  then show ?case by (meson le_refl)
qed

lemma lev_drop_target: "lev xs ys \<le> Suc (lev xs (y # ys))"
proof -
  have "edit_cost xs (y # ys) (lev xs (y # ys))" by (rule edit_cost_lev)
  then have "\<exists>m \<le> Suc (lev xs (y # ys)). edit_cost xs ys m"
    by (rule edit_cost_drop_target) (rule refl)
  then obtain m where m: "m \<le> Suc (lev xs (y # ys))" and e: "edit_cost xs ys m"
    by blast
  from e have "lev xs ys \<le> m" by (rule lev_least)
  with m show ?thesis by linarith
qed

lemma lev_drop_source: "lev xs ys \<le> Suc (lev (x # xs) ys)"
  using lev_drop_target [of ys xs x] lev_sym [of xs ys] lev_sym [of "x # xs" ys] by linarith

lemma lev_Cons_same: "lev (x # xs) (x # ys) = lev xs ys"
proof -
  have "lev (x # xs) (x # ys) =
      min (min (Suc (lev xs (x # ys))) (Suc (lev (x # xs) ys))) (lev xs ys)"
    by simp
  then show ?thesis
    using lev_drop_target [of xs ys x] lev_drop_source [of xs ys x] by linarith
qed

lemma lev_Cons_diff:
  "x \<noteq> y \<Longrightarrow> lev (x # xs) (y # ys) = min (min (lev xs ys) (lev (x # xs) ys)) (lev xs (y # ys)) + 1"
proof -
  assume "x \<noteq> y"
  then have "lev (x # xs) (y # ys) =
      min (min (Suc (lev xs (y # ys))) (Suc (lev (x # xs) ys))) (Suc (lev xs ys))"
    by simp
  then show ?thesis by linarith
qed

lemma lev_snoc_same: "lev (xs @ [x]) (ys @ [x]) = lev xs ys"
proof -
  have "lev (xs @ [x]) (ys @ [x]) = lev (x # rev xs) (x # rev ys)"
    using lev_rev [of "xs @ [x]" "ys @ [x]"] by simp
  also have "\<dots> = lev (rev xs) (rev ys)" by (rule lev_Cons_same)
  also have "\<dots> = lev xs ys" by (rule lev_rev)
  finally show ?thesis .
qed

lemma lev_snoc_diff:
  assumes "x \<noteq> y"
  shows "lev (xs @ [x]) (ys @ [y]) = min (min (lev xs ys) (lev (xs @ [x]) ys)) (lev xs (ys @ [y])) + 1"
proof -
  have "lev (xs @ [x]) (ys @ [y]) = lev (x # rev xs) (y # rev ys)"
    using lev_rev [of "xs @ [x]" "ys @ [y]"] by simp
  also have "\<dots> = min (min (lev (rev xs) (rev ys)) (lev (x # rev xs) (rev ys))) (lev (rev xs) (y # rev ys)) + 1"
    using assms by (rule lev_Cons_diff)
  also have "lev (rev xs) (rev ys) = lev xs ys" by (rule lev_rev)
  also have "lev (x # rev xs) (rev ys) = lev (xs @ [x]) ys"
    using lev_rev [of "xs @ [x]" ys] by simp
  also have "lev (rev xs) (y # rev ys) = lev xs (ys @ [y])"
    using lev_rev [of xs "ys @ [y]"] by simp
  finally show ?thesis .
qed

subsection \<open>The least alignment cost is the least number of single-character edits\<close>

lemma edits_further_right: "(single_edit ^^ n) xs ys \<Longrightarrow> (single_edit ^^ n) (c # xs) (c # ys)"
proof (induction n arbitrary: ys)
  case 0
  then show ?case by simp
next
  case (Suc n)
  then obtain zs where "(single_edit ^^ n) xs zs" "single_edit zs ys" by auto
  then have "(single_edit ^^ n) (c # xs) (c # zs)" "single_edit (c # zs) (c # ys)"
    using Suc.IH by (auto intro: single_edit.further_right)
  then show ?case by auto
qed

lemma edit_cost_edits: "edit_cost xs ys n \<Longrightarrow> (single_edit ^^ n) xs ys"
proof (induction rule: edit_cost.induct)
  case finished
  show ?case by simp
next
  case (deletion xs ys n x)
  have "single_edit (x # xs) xs" by (rule single_edit.delete_char)
  then show ?case using deletion.IH by (rule relpowp_Suc_I2)
next
  case (insertion xs ys n y)
  have "single_edit ys (y # ys)" by (rule single_edit.insert_char)
  with insertion.IH show ?case by (rule relpowp_Suc_I)
next
  case (substitution xs ys n x y)
  have "single_edit (x # xs) (y # xs)" by (rule single_edit.substitute_char)
  moreover have "(single_edit ^^ n) (y # xs) (y # ys)"
    using substitution.IH by (rule edits_further_right)
  ultimately show ?case by (rule relpowp_Suc_I2)
next
  case (keep xs ys n x)
  then show ?case by (simp add: edits_further_right)
qed

lemma edit_cost_single_edit:
  "edit_cost xs ys m \<Longrightarrow> single_edit ys zs \<Longrightarrow> \<exists>k \<le> Suc m. edit_cost xs zs k"
proof (induction arbitrary: zs rule: edit_cost.induct)
  case finished
  from finished.prems obtain c where "zs = [c]" by cases auto
  moreover have "edit_cost [] [c] (Suc 0)"
    by (intro edit_cost.insertion edit_cost.finished)
  ultimately show ?case by (meson le_refl)
next
  case (deletion xs ys n x)
  then obtain k where "k \<le> Suc n" "edit_cost xs zs k" by blast
  then have "Suc k \<le> Suc (Suc n) \<and> edit_cost (x # xs) zs (Suc k)"
    by (simp add: edit_cost.deletion)
  then show ?case by blast
next
  case (insertion xs ys n y)
  from insertion.prems show ?case
  proof cases
    case (insert_char c)
    have "edit_cost xs (c # y # ys) (Suc (Suc n))"
      by (intro edit_cost.insertion insertion.hyps)
    then show ?thesis using insert_char by auto
  next
    case delete_char
    then have "edit_cost xs zs n" using insertion.hyps by simp
    then show ?thesis by (meson le_SucI le_refl)
  next
    case (substitute_char d)
    have "edit_cost xs (d # ys) (Suc n)" by (intro edit_cost.insertion insertion.hyps)
    then show ?thesis using substitute_char by (meson le_SucI le_refl)
  next
    case (further_right ys')
    then obtain k where "k \<le> Suc n" "edit_cost xs ys' k" using insertion.IH by blast
    then have "Suc k \<le> Suc (Suc n) \<and> edit_cost xs (y # ys') (Suc k)"
      by (simp add: edit_cost.insertion)
    then show ?thesis using further_right by blast
  qed
next
  case (substitution xs ys n x y)
  from substitution.prems show ?case
  proof cases
    case (insert_char c)
    have "edit_cost (x # xs) (c # y # ys) (Suc (Suc n))"
      by (intro edit_cost.insertion edit_cost.substitution substitution.hyps)
    then show ?thesis using insert_char by auto
  next
    case delete_char
    have "edit_cost (x # xs) ys (Suc n)" by (intro edit_cost.deletion substitution.hyps)
    then show ?thesis using delete_char by (meson le_SucI le_refl)
  next
    case (substitute_char d)
    have "edit_cost (x # xs) (d # ys) (Suc n)"
      by (intro edit_cost.substitution substitution.hyps)
    then show ?thesis using substitute_char by (meson le_SucI le_refl)
  next
    case (further_right ys')
    then obtain k where "k \<le> Suc n" "edit_cost xs ys' k" using substitution.IH by blast
    then have "Suc k \<le> Suc (Suc n) \<and> edit_cost (x # xs) (y # ys') (Suc k)"
      by (simp add: edit_cost.substitution)
    then show ?thesis using further_right by blast
  qed
next
  case (keep xs ys n x)
  from keep.prems show ?case
  proof cases
    case (insert_char c)
    have "edit_cost (x # xs) (c # x # ys) (Suc n)"
      by (intro edit_cost.insertion edit_cost.keep keep.hyps)
    then show ?thesis using insert_char by auto
  next
    case delete_char
    have "edit_cost (x # xs) ys (Suc n)" by (intro edit_cost.deletion keep.hyps)
    then show ?thesis using delete_char by auto
  next
    case (substitute_char d)
    have "edit_cost (x # xs) (d # ys) (Suc n)" by (intro edit_cost.substitution keep.hyps)
    then show ?thesis using substitute_char by auto
  next
    case (further_right ys')
    then obtain k where "k \<le> Suc n" "edit_cost xs ys' k" using keep.IH by blast
    then have "k \<le> Suc n \<and> edit_cost (x # xs) (x # ys') k"
      by (simp add: edit_cost.keep)
    then show ?thesis using further_right by blast
  qed
qed

lemma edit_cost_refl: "edit_cost xs xs 0"
  by (induction xs) (auto intro: edit_cost.finished edit_cost.keep)

lemma edits_lev: "(single_edit ^^ n) xs ys \<Longrightarrow> lev xs ys \<le> n"
proof (induction n arbitrary: ys)
  case 0
  then have "ys = xs" by simp
  then show ?case using lev_least [OF edit_cost_refl, of xs] by simp
next
  case (Suc n)
  then obtain zs where z: "(single_edit ^^ n) xs zs" and s: "single_edit zs ys" by auto
  from z have "lev xs zs \<le> n" by (rule Suc.IH)
  moreover obtain k where "k \<le> Suc (lev xs zs)" "edit_cost xs ys k"
    using edit_cost_single_edit [OF edit_cost_lev s] by blast
  moreover from this(2) have "lev xs ys \<le> k" by (rule lev_least)
  ultimately show ?case by linarith
qed

lemma levenshtein_lev: "levenshtein xs ys = lev xs ys"
  unfolding levenshtein_def
proof (rule Least_equality)
  show "(single_edit ^^ lev xs ys) xs ys"
    by (rule edit_cost_edits) (rule edit_cost_lev)
next
  fix n assume "(single_edit ^^ n) xs ys"
  then show "lev xs ys \<le> n" by (rule edits_lev)
qed

subsection \<open>The loops of \<^verbatim>\<open>editDistance\<close> fill the table row by row\<close>

lemma prefix_dist_0: "j \<le> length s2 \<Longrightarrow> prefix_dist s1 s2 0 j = j"
  by (simp add: prefix_dist_def)

lemma prefix_dist_0': "prefix_dist s1 s2 i 0 = min i (length s1)"
  by (simp add: prefix_dist_def lev_Nil2)

lemma prefix_dist_step:
  assumes "0 < i" "i \<le> length s1" "0 < j" "j \<le> length s2"
  shows "prefix_dist s1 s2 i j =
    (if s1 ! (i - 1) \<noteq> s2 ! (j - 1)
     then min (min (prefix_dist s1 s2 (i - 1) (j - 1)) (prefix_dist s1 s2 i (j - 1)))
              (prefix_dist s1 s2 (i - 1) j) + 1
     else prefix_dist s1 s2 (i - 1) (j - 1))"
proof -
  obtain i' j' where ij: "i = Suc i'" "j = Suc j'"
    using assms(1,3) by (metis Suc_pred)
  have ti: "take i s1 = take i' s1 @ [s1 ! i']"
    using assms(2) ij by (simp add: take_Suc_conv_app_nth)
  have tj: "take j s2 = take j' s2 @ [s2 ! j']"
    using assms(4) ij by (simp add: take_Suc_conv_app_nth)
  show ?thesis
  proof (cases "s1 ! i' = s2 ! j'")
    case True
    then show ?thesis
      unfolding prefix_dist_def ti tj using ij by (simp add: lev_snoc_same)
  next
    case False
    have "lev (take i' s1 @ [s1 ! i']) (take j' s2 @ [s2 ! j']) =
        min (min (lev (take i' s1) (take j' s2)) (lev (take i' s1 @ [s1 ! i']) (take j' s2)))
            (lev (take i' s1) (take j' s2 @ [s2 ! j'])) + 1"
      using False by (rule lev_snoc_diff)
    then show ?thesis
      unfolding prefix_dist_def using False ij ti tj by simp
  qed
qed

lemma inner_loop_first_row:
  "i = 0 \<Longrightarrow> costs = [0..<j] \<Longrightarrow> j \<le> Suc (length s2) \<Longrightarrow>
   inner_loop s1 s2 i j costs l = ([0..<Suc (length s2)], l)"
proof (induction s1 s2 i j costs l rule: inner_loop.induct)
  case (1 s1 s2 i j costs lastValue)
  show ?case
  proof (cases "j \<le> length s2")
    case True
    have "array_set costs j j = [0..<Suc j]"
      using "1.prems" by (simp add: array_set_def)
    then have "inner_loop s1 s2 i (Suc j) (array_set costs j j) lastValue =
        ([0..<Suc (length s2)], lastValue)"
      using "1.IH"(1) [OF True] "1.prems" True by simp
    then show ?thesis
      using True "1.prems" by (subst inner_loop.simps) simp
  next
    case False
    then have "j = Suc (length s2)" using "1.prems" by simp
    then show ?thesis
      using "1.prems" by (subst inner_loop.simps) simp
  qed
qed

lemma inner_loop_next_row:
  "0 < i \<Longrightarrow> i \<le> length s1 \<Longrightarrow> j \<le> Suc (length s2) \<Longrightarrow>
   length costs = Suc (length s2) \<Longrightarrow>
   (\<forall>k. k < j - 1 \<longrightarrow> costs ! k = prefix_dist s1 s2 i k) \<Longrightarrow>
   (\<forall>k. j - 1 \<le> k \<and> k \<le> length s2 \<longrightarrow> costs ! k = prefix_dist s1 s2 (i - 1) k) \<Longrightarrow>
   l = prefix_dist s1 s2 i (j - 1) \<Longrightarrow>
   inner_loop s1 s2 i j costs l = (costs', l') \<Longrightarrow>
   length costs' = Suc (length s2) \<and>
   (\<forall>k. k < length s2 \<longrightarrow> costs' ! k = prefix_dist s1 s2 i k) \<and>
   l' = prefix_dist s1 s2 i (length s2)"
proof (induction s1 s2 i j costs l rule: inner_loop.induct)
  case (1 s1 s2 i j costs lastValue)
  show ?case
  proof (cases "j \<le> length s2")
    case False
    then have j: "j = Suc (length s2)" using "1.prems" by simp
    have "inner_loop s1 s2 i j costs lastValue = (costs, lastValue)"
      using False by (subst inner_loop.simps) simp
    then have "costs' = costs" "l' = lastValue" using "1.prems" by simp_all
    then show ?thesis using "1.prems" j by simp
  next
    case True
    note le = True
    show ?thesis
    proof (cases "0 < j")
      case False
      then have j0: "j = 0" by simp
      have "inner_loop s1 s2 i j costs lastValue = inner_loop s1 s2 i (Suc j) costs lastValue"
        using le j0 "1.prems"(1) by (subst inner_loop.simps) simp
      then have r: "inner_loop s1 s2 i (Suc j) costs lastValue = (costs', l')"
        using "1.prems" by simp
      show ?thesis
      proof (rule "1.IH"(3) [OF le _ _ "1.prems"(1,2) _ "1.prems"(4) _ _ _ r])
        show "i \<noteq> 0" using "1.prems"(1) by simp
        show "\<not> 0 < j" using j0 by simp
        show "Suc j \<le> Suc (length s2)" using le by simp
        show "\<forall>k. k < Suc j - 1 \<longrightarrow> costs ! k = prefix_dist s1 s2 i k" using j0 by simp
        show "\<forall>k. Suc j - 1 \<le> k \<and> k \<le> length s2 \<longrightarrow> costs ! k = prefix_dist s1 s2 (i - 1) k"
          using "1.prems"(6) j0 by simp
        show "lastValue = prefix_dist s1 s2 i (Suc j - 1)" using "1.prems"(7) j0 by simp
      qed
    next
      case True
      note jpos = True
      define newValue where "newValue = costs ! (j - 1)"
      define newValue' where "newValue' = (if s1 ! (i - 1) \<noteq> s2 ! (j - 1)
                             then min (min newValue lastValue) (costs ! j) + 1
                             else newValue)"
      have nv: "newValue = prefix_dist s1 s2 (i - 1) (j - 1)"
        using "1.prems"(6) le jpos by (simp add: newValue_def)
      have cj: "costs ! j = prefix_dist s1 s2 (i - 1) j"
        using "1.prems"(6) le by simp
      have nv': "newValue' = prefix_dist s1 s2 i j"
        using prefix_dist_step [OF "1.prems"(1,2) jpos le] nv cj "1.prems"(7)
        by (simp add: newValue'_def)
      have "inner_loop s1 s2 i j costs lastValue =
          inner_loop s1 s2 i (Suc j) (costs[j - 1 := lastValue]) newValue'"
        using le jpos "1.prems"(1)
        by (subst inner_loop.simps) (simp add: newValue_def newValue'_def Let_def)
      then have r: "inner_loop s1 s2 i (Suc j) (costs[j - 1 := lastValue]) newValue' = (costs', l')"
        using "1.prems" by simp
      show ?thesis
      proof (rule "1.IH"(2) [OF le _ jpos newValue_def newValue'_def "1.prems"(1,2) _ _ _ _ _ r])
        show "i \<noteq> 0" using "1.prems"(1) by simp
        show "Suc j \<le> Suc (length s2)" using le by simp
        show "length (costs[j - 1 := lastValue]) = Suc (length s2)" using "1.prems"(4) by simp
        show "\<forall>k. k < Suc j - 1 \<longrightarrow> costs[j - 1 := lastValue] ! k = prefix_dist s1 s2 i k"
        proof (intro allI impI)
          fix k assume k: "k < Suc j - 1"
          show "costs[j - 1 := lastValue] ! k = prefix_dist s1 s2 i k"
          proof (cases "k = j - 1")
            case True
            then show ?thesis using "1.prems"(4,7) le by simp
          next
            case False
            then have "k < j - 1" using k by simp
            then show ?thesis using "1.prems"(5) False by simp
          qed
        qed
        show "\<forall>k. Suc j - 1 \<le> k \<and> k \<le> length s2 \<longrightarrow>
            costs[j - 1 := lastValue] ! k = prefix_dist s1 s2 (i - 1) k"
        proof (intro allI impI)
          fix k assume k: "Suc j - 1 \<le> k \<and> k \<le> length s2"
          then have "k \<noteq> j - 1" "j - 1 \<le> k" using jpos by auto
          then show "costs[j - 1 := lastValue] ! k = prefix_dist s1 s2 (i - 1) k"
            using "1.prems"(6) k by simp
        qed
        show "newValue' = prefix_dist s1 s2 i (Suc j - 1)" using nv' by simp
      qed
    qed
  qed
qed

lemma inner_loop_row:
  assumes "0 < i" "i \<le> length s1" "length costs = Suc (length s2)"
    and "\<forall>k. k \<le> length s2 \<longrightarrow> costs ! k = prefix_dist s1 s2 (i - 1) k"
    and "inner_loop s1 s2 i 0 costs i = (costs', l')"
  shows "length (array_set costs' (length s2) l') = Suc (length s2) \<and>
    (\<forall>k. k \<le> length s2 \<longrightarrow>
       array_set costs' (length s2) l' ! k = prefix_dist s1 s2 i k)"
proof -
  have l: "i = prefix_dist s1 s2 i (0 - 1)"
    using assms(2) by (simp add: prefix_dist_0')
  have r: "length costs' = Suc (length s2) \<and>
     (\<forall>k. k < length s2 \<longrightarrow> costs' ! k = prefix_dist s1 s2 i k) \<and>
     l' = prefix_dist s1 s2 i (length s2)"
    by (rule inner_loop_next_row [OF assms(1,2) _ assms(3) _ _ l assms(5)])
       (use assms(4) in simp_all)
  then have len: "length costs' = Suc (length s2)" by simp
  have "array_set costs' (length s2) l' ! k = prefix_dist s1 s2 i k" if "k \<le> length s2" for k
  proof (cases "k = length s2")
    case True
    then show ?thesis using r len by (simp add: array_set_def)
  next
    case False
    then have "k < length s2" using that by simp
    then show ?thesis using r len by (simp add: array_set_def)
  qed
  then show ?thesis using len by (simp add: array_set_def)
qed

lemma outer_loop_rows:
  "0 < i \<Longrightarrow> i \<le> Suc (length s1) \<Longrightarrow> length costs = Suc (length s2) \<Longrightarrow>
   (\<forall>k. k \<le> length s2 \<longrightarrow> costs ! k = prefix_dist s1 s2 (i - 1) k) \<Longrightarrow>
   outer_loop s1 s2 i costs ! length s2 = lev s1 s2"
proof (induction s1 s2 i costs rule: outer_loop.induct)
  case (1 s1 s2 i costs)
  show ?case
  proof (cases "i \<le> length s1")
    case False
    then have i: "i = Suc (length s1)" using "1.prems" by simp
    have "outer_loop s1 s2 i costs = costs"
      using False by (subst outer_loop.simps) simp
    then show ?thesis using "1.prems"(4) i by (simp add: prefix_dist_def)
  next
    case True
    obtain costs' l' where r: "inner_loop s1 s2 i 0 costs i = (costs', l')"
      by (cases "inner_loop s1 s2 i 0 costs i")
    have row: "length (array_set costs' (length s2) l') = Suc (length s2) \<and>
      (\<forall>k. k \<le> length s2 \<longrightarrow>
         array_set costs' (length s2) l' ! k = prefix_dist s1 s2 i k)"
      by (rule inner_loop_row [OF "1.prems"(1) True "1.prems"(3,4) r])
    have step: "outer_loop s1 s2 i costs =
        outer_loop s1 s2 (Suc i) (array_set costs' (length s2) l')"
      using True r "1.prems"(1) by (subst outer_loop.simps) simp
    have "outer_loop s1 s2 (Suc i)
        (if 0 < i then array_set costs' (length s2) l' else costs') ! length s2 = lev s1 s2"
      by (rule "1.IH" [OF True r [symmetric]]) (use True row "1.prems"(1) in simp_all)
    then show ?thesis using step "1.prems"(1) by simp
  qed
qed

lemma outer_loop_lev: "outer_loop s1 s2 0 [] ! length s2 = lev s1 s2"
proof -
  have r: "inner_loop s1 s2 0 0 [] 0 = ([0..<Suc (length s2)], 0)"
    by (rule inner_loop_first_row) simp_all
  have step: "outer_loop s1 s2 0 [] = outer_loop s1 s2 (Suc 0) [0..<Suc (length s2)]"
    using r by (subst outer_loop.simps) simp
  have "outer_loop s1 s2 (Suc 0) [0..<Suc (length s2)] ! length s2 = lev s1 s2"
  proof (rule outer_loop_rows)
    show "\<forall>k. k \<le> length s2 \<longrightarrow>
        [0..<Suc (length s2)] ! k = prefix_dist s1 s2 (Suc 0 - 1) k"
    proof (intro allI impI)
      fix k assume "k \<le> length s2"
      then have "k < length [0..<Suc (length s2)]" by simp
      then have "[0..<Suc (length s2)] ! k = k"
        using nth_upt [of 0 k "Suc (length s2)"] by simp
      then show "[0..<Suc (length s2)] ! k = prefix_dist s1 s2 (Suc 0 - 1) k"
        using \<open>k \<le> length s2\<close> by (simp add: prefix_dist_0)
    qed
  qed simp_all
  then show ?thesis using step by simp
qed

lemma editDistance_lev: "editDistance a b = lev (toLowerCase a) (toLowerCase b)"
  by (simp add: editDistance_def Let_def outer_loop_lev)

lemma editDistance_sym: "editDistance a b = editDistance b a"
  unfolding editDistance_lev by (rule lev_sym)

lemma editDistance_kitten: "editDistance ''kitten'' ''sitting'' = 3"
  by code_simp

text \<open>
  Claim C7. For all strings \<open>a\<close> and \<open>b\<close>, \<^verbatim>\<open>editDistance(a, b)\<close> is the Levenshtein distance
  between the lowercase forms of \<open>a\<close> and \<open>b\<close>, that is the least number of single-character
  insertions, deletions and substitutions that turn one into the other; in particular
  \<^verbatim>\<open>editDistance("kitten", "sitting")\<close> is 3.
\<close>

theorem editDistance_is_levenshtein:
  "editDistance a b = levenshtein (toLowerCase a) (toLowerCase b)
   \<and> editDistance ''kitten'' ''sitting'' = 3"
proof
  have "editDistance a b = lev (toLowerCase a) (toLowerCase b)"
    by (rule editDistance_lev)
  also have "\<dots> = levenshtein (toLowerCase a) (toLowerCase b)"
    by (rule levenshtein_lev [symmetric])
  finally show "editDistance a b = levenshtein (toLowerCase a) (toLowerCase b)" .
next
  show "editDistance ''kitten'' ''sitting'' = 3"
    by (rule editDistance_kitten)
qed

subsection \<open>The similarity score\<close>

lemma calculateSimilarity_formula:
  assumes "a \<noteq> []" "b \<noteq> []"
  shows "calculateSimilarity (Some a) (Some b) =
     (of_nat (max (length a) (length b)) - of_nat (editDistance a b))
       / of_nat (max (length a) (length b))"
proof (cases "length a < length b")
  case True
  then have "max (length a) (length b) = length b" by simp
  moreover have "editDistance b a = editDistance a b" by (rule editDistance_sym)
  ultimately show ?thesis
    using assms True by (simp add: calculateSimilarity_def Let_def)
next
  case False
  then have "max (length a) (length b) = length a" by simp
  then show ?thesis
    using assms False by (simp add: calculateSimilarity_def Let_def)
qed

lemma calculateSimilarity_falsy:
  "calculateSimilarity None s2 = 0" "calculateSimilarity s1 None = 0"
  "calculateSimilarity (Some []) s2 = 0" "calculateSimilarity s1 (Some []) = 0"
  by (simp_all add: calculateSimilarity_def split: option.splits)

lemma editDistance_kitten_kitten: "editDistance ''kitten'' ''kitten'' = 0"
  by code_simp

lemma editDistance_abc_abd: "editDistance ''abc'' ''abd'' = 1"
  by code_simp

text \<open>
  Claim C8. \<^verbatim>\<open>calculateSimilarity(a, b)\<close> is 0 when either argument is absent or the empty
  string (also when both are empty); otherwise it is
  \<open>(max_len - editDistance(a, b)) / max_len\<close>, where \<open>max_len\<close> is the length of the longer
  string. In particular the score of \<^verbatim>\<open>"kitten"\<close> with itself is 1, and the score of
  \<^verbatim>\<open>"abc"\<close> and \<^verbatim>\<open>"abd"\<close> is \<open>2/3\<close>, within \<open>0.001\<close> of \<open>0.667\<close>.
\<close>

theorem calculateSimilarity_value:
  "calculateSimilarity None s2 = 0
   \<and> calculateSimilarity s1 None = 0
   \<and> calculateSimilarity (Some []) s2 = 0
   \<and> calculateSimilarity s1 (Some []) = 0
   \<and> (a \<noteq> [] \<and> b \<noteq> [] \<longrightarrow>
        calculateSimilarity (Some a) (Some b) =
          (of_nat (max (length a) (length b)) - of_nat (editDistance a b))
            / of_nat (max (length a) (length b)))
   \<and> calculateSimilarity (Some ''kitten'') (Some ''kitten'') = 1
   \<and> calculateSimilarity (Some ''abc'') (Some ''abd'') = 2 / 3
   \<and> \<bar>calculateSimilarity (Some ''abc'') (Some ''abd'') - 667 / 1000\<bar> < 1 / 1000"
proof -
  have kk: "calculateSimilarity (Some ''kitten'') (Some ''kitten'') = 1"
    using calculateSimilarity_formula [of "''kitten''" "''kitten''"]
    by (simp add: editDistance_kitten_kitten)
  have ab: "calculateSimilarity (Some ''abc'') (Some ''abd'') = 2 / 3"
    using calculateSimilarity_formula [of "''abc''" "''abd''"]
    by (simp add: editDistance_abc_abd)
  have "\<bar>(2 / 3 :: rat) - 667 / 1000\<bar> < 1 / 1000" by simp
  with ab have near: "\<bar>calculateSimilarity (Some ''abc'') (Some ''abd'') - 667 / 1000\<bar> < 1 / 1000"
    by simp
  have formula: "a \<noteq> [] \<and> b \<noteq> [] \<longrightarrow>
        calculateSimilarity (Some a) (Some b) =
          (of_nat (max (length a) (length b)) - of_nat (editDistance a b))
            / of_nat (max (length a) (length b))"
    using calculateSimilarity_formula [of a b] by blast
  show ?thesis
    by (intro conjI) (rule calculateSimilarity_falsy formula kk ab near)+
qed

text \<open>The formula of C8 at \<^verbatim>\<open>"ab"\<close> and \<^verbatim>\<open>"abcd"\<close>: two insertions, score \<open>1/2\<close>.\<close>

theorem calculateSimilarity_value_witness:
  "''ab'' \<noteq> [] \<and> ''abcd'' \<noteq> []
   \<and> calculateSimilarity (Some ''ab'') (Some ''abcd'') = 1 / 2
   \<and> (of_nat (max (length ''ab'') (length ''abcd'')) - of_nat (editDistance ''ab'' ''abcd''))
        / of_nat (max (length ''ab'') (length ''abcd'')) = (1 / 2 :: rat)"
proof -
  have e: "editDistance ''ab'' ''abcd'' = 2" by code_simp
  have "calculateSimilarity (Some ''ab'') (Some ''abcd'') =
      (of_nat (max (length ''ab'') (length ''abcd'')) - of_nat (editDistance ''ab'' ''abcd''))
        / of_nat (max (length ''ab'') (length ''abcd''))"
    using calculateSimilarity_value [of _ _ "''ab''" "''abcd''"] by simp
  then show ?thesis by (simp add: e)
qed

text \<open>
  Claim C10. \<^verbatim>\<open>calculateSimilarity\<close> is commutative: for all arguments (strings, or absent)
  \<^verbatim>\<open>calculateSimilarity(a, b)\<close> equals \<^verbatim>\<open>calculateSimilarity(b, a)\<close>.
\<close>

theorem calculateSimilarity_commutative:
  "calculateSimilarity s1 s2 = calculateSimilarity s2 s1"
proof (cases "\<exists>a b. s1 = Some a \<and> s2 = Some b \<and> a \<noteq> [] \<and> b \<noteq> []")
  case True
  then obtain a b where ab: "s1 = Some a" "s2 = Some b" "a \<noteq> []" "b \<noteq> []" by blast
  have "calculateSimilarity (Some a) (Some b) = calculateSimilarity (Some b) (Some a)"
    unfolding calculateSimilarity_formula [OF ab(3,4)] calculateSimilarity_formula [OF ab(4,3)]
    by (simp add: max.commute editDistance_sym [of a b])
  then show ?thesis using ab by simp
next
  case False
  then have "calculateSimilarity s1 s2 = 0" "calculateSimilarity s2 s1 = 0"
    by (auto simp: calculateSimilarity_def split: option.splits)
  then show ?thesis by simp
qed

end
